theory Spec2Isabelle
  imports Complex_Main "HOL-Library.AList" "HOL-Library.Sublist"
begin

section \<open>JSON values\<close>

text \<open>
  The payloads handled by \<^verbatim>\<open>SlackClient\<close> are what \<^verbatim>\<open>response.json()\<close> returns: JSON trees.
  An object is the list of its own entries in the order of \<^verbatim>\<open>Object.entries\<close>; a number
  carries the value of the Number (every finite double is a rational, and JSON has neither
  NaN nor an infinity).
\<close>

datatype json =
    Null
  | Bool bool
  | Num rat
  | Str string
  | Arr "json list"
  | Obj "(string \<times> json) list"

text \<open>Errors are values; all of them are instances of \<^verbatim>\<open>Error\<close> and carry a message.\<close>

datatype error =
    Error string
  | TypeError string
  | RangeError string
  | SyntaxError string

fun message :: "error \<Rightarrow> string" where
  "message (Error m) = m"
| "message (TypeError m) = m"
| "message (RangeError m) = m"
| "message (SyntaxError m) = m"

text \<open>\<^verbatim>\<open>typeof v === 'object'\<close>: true of objects, arrays and \<^verbatim>\<open>null\<close>.\<close>

fun typeofObject :: "json \<Rightarrow> bool" where
  "typeofObject Null = True"
| "typeofObject (Arr xs) = True"
| "typeofObject (Obj fs) = True"
| "typeofObject v = False"

text \<open>JavaScript truthiness of a JSON value (\<^verbatim>\<open>!v\<close> is its negation).\<close>

fun truthy :: "json \<Rightarrow> bool" where
  "truthy Null = False"
| "truthy (Bool b) = b"
| "truthy (Num x) = (x \<noteq> 0)"
| "truthy (Str s) = (s \<noteq> [])"
| "truthy (Arr xs) = True"
| "truthy (Obj fs) = True"

text \<open>A property read \<^verbatim>\<open>o.k\<close> on an object; \<^verbatim>\<open>undefined\<close> is \<open>None\<close>, which is falsy.\<close>

definition truthyField :: "(string \<times> json) list \<Rightarrow> string \<Rightarrow> bool" where
  "truthyField fs k = (case map_of fs k of None \<Rightarrow> False | Some v \<Rightarrow> truthy v)"

section \<open>The regular expressions\<close>

definition isDigit :: "char \<Rightarrow> bool" where
  "isDigit c = (c \<in> set ''0123456789'')"

definition isUpper :: "char \<Rightarrow> bool" where
  "isUpper c = (c \<in> set ''ABCDEFGHIJKLMNOPQRSTUVWXYZ'')"

text \<open>\<^verbatim>\<open>/^\d+(\.\d+)?$/\<close>\<close>

definition isNumericString :: "string \<Rightarrow> bool" where
  "isNumericString s =
     (takeWhile isDigit s \<noteq> [] \<and>
      (case dropWhile isDigit s of
         [] \<Rightarrow> True
       | c # ds \<Rightarrow> c = CHR ''.'' \<and> ds \<noteq> [] \<and> list_all isDigit ds))"

text \<open>\<^verbatim>\<open>/^U[A-Z0-9]+$/\<close>\<close>

definition isUserId :: "string \<Rightarrow> bool" where
  "isUserId s =
     (case s of
        [] \<Rightarrow> False
      | c # rest \<Rightarrow> c = CHR ''U'' \<and> rest \<noteq> [] \<and> list_all (\<lambda>d. isUpper d \<or> isDigit d) rest)"

definition endsWith :: "string \<Rightarrow> string \<Rightarrow> bool" where
  "endsWith s t = (length t \<le> length s \<and> drop (length s - length t) s = t)"

text \<open>The key test of \<^verbatim>\<open>convertTimestampsToISO\<close> (line 309).\<close>

definition isTimestampKey :: "string \<Rightarrow> bool" where
  "isTimestampKey key =
     (key = ''ts'' \<or> key = ''thread_ts'' \<or> key = ''timestamp'' \<or> endsWith key ''_ts'')"

section \<open>Numbers and dates of the platform\<close>

text \<open>
  \<^verbatim>\<open>new Date(parseFloat(value) * 1000).toISOString()\<close> runs three built-ins of the language,
  modelled here after ECMA-262 for the only arguments they receive, the strings that pass
  \<open>isNumericString\<close>. These are never negative, so a double is a non-negative rational or
  \<open>Infinity\<close>.
\<close>

datatype double = Finite rat | Infinity

text \<open>The number of binary digits of a positive integer.\<close>

function bitLength :: "int \<Rightarrow> nat" where
  "bitLength n = (if n \<le> 0 then 0 else Suc (bitLength (n div 2)))"
  by pat_completeness auto
termination
proof (relation "measure nat")
  show "wf (measure nat)" by simp
next
  fix n :: int
  assume pos: "\<not> n \<le> 0"
  then have "n div 2 < n" by linarith
  with pos show "(n div 2, n) \<in> measure nat" by simp
qed

declare bitLength.simps [simp del]

definition pow2 :: "int \<Rightarrow> rat" where
  "pow2 e = (if 0 \<le> e then 2 ^ nat e else 1 / 2 ^ nat (- e))"

text \<open>The exponent \<open>e\<close> with \<open>2^e \<le> x < 2^(e+1)\<close>, for \<open>x > 0\<close>.\<close>

definition floorLog2 :: "rat \<Rightarrow> int" where
  "floorLog2 x =
     (let d = int (bitLength (fst (quotient_of x))) - int (bitLength (snd (quotient_of x)))
      in if pow2 d \<le> x then d else d - 1)"

definition roundHalfEven :: "rat \<Rightarrow> int" where
  "roundHalfEven x =
     (let f = \<lfloor>x\<rfloor>; r = x - of_int f
      in if r < 1 / 2 then f else if 1 / 2 < r then f + 1 else if even f then f else f + 1)"

text \<open>
  The Number value for a non-negative real: the nearest binary64 value, ties to even, with
  53 significant bits, the exponent bounded below by the subnormal range and overflow to
  \<open>Infinity\<close> from \<open>2^1024\<close> on.
\<close>

definition toDouble :: "rat \<Rightarrow> double" where
  "toDouble x =
     (if x = 0 then Finite 0
      else let e = max (floorLog2 x) (- 1022);
               ulp = pow2 (e - 52);
               y = of_int (roundHalfEven (x / ulp)) * ulp
           in if pow2 1024 \<le> y then Infinity else Finite y)"

text \<open>The integer that a string of decimal digits denotes.\<close>

definition digitOf :: "char \<Rightarrow> int" where
  "digitOf c = int (length (takeWhile (\<lambda>d. d \<noteq> c) ''0123456789''))"

definition digitsValue :: "string \<Rightarrow> int" where
  "digitsValue s = foldl (\<lambda>acc c. 10 * acc + digitOf c) 0 s"

text \<open>
  \<^verbatim>\<open>parseFloat\<close> on digits with an optional fraction: the double nearest to the decimal.
  (For more than 20 significant digits the standard also admits the double of the decimal
  cut at the twentieth digit; the engine of Node rounds the decimal itself.)
\<close>

definition parseFloat :: "string \<Rightarrow> double" where
  "parseFloat s =
     (let whole = takeWhile isDigit s; ds = drop (Suc (length whole)) s
      in toDouble (of_int (digitsValue (whole @ ds)) / 10 ^ length ds))"

text \<open>\<^verbatim>\<open>timestamp * 1000\<close>\<close>

definition times1000 :: "double \<Rightarrow> double" where
  "times1000 d = (case d of Infinity \<Rightarrow> Infinity | Finite x \<Rightarrow> toDouble (x * 1000))"

text \<open>
  \<^verbatim>\<open>new Date(v)\<close>: the time value is \<open>TimeClip(v)\<close>, the truncated number of milliseconds, or
  NaN (\<open>None\<close>, an invalid date) beyond 8.64e15. The values here are not negative.
\<close>

definition newDate :: "double \<Rightarrow> int option" where
  "newDate d =
     (case d of
        Infinity \<Rightarrow> None
      | Finite x \<Rightarrow> if 8640000000000000 < x then None else Some \<lfloor>x\<rfloor>)"

definition digitChar :: "int \<Rightarrow> char" where
  "digitChar d = ''0123456789'' ! nat (d mod 10)"

text \<open>The last \<open>w\<close> decimal digits of \<open>n\<close>, zero-padded.\<close>

definition pad :: "nat \<Rightarrow> int \<Rightarrow> string" where
  "pad w n = map (\<lambda>i. digitChar (n div 10 ^ i)) (rev [0..<w])"

text \<open>
  Year, month and day of the proleptic Gregorian calendar for a day number counted from
  1970-01-01 (\<open>YearFromTime\<close>, \<open>MonthFromTime\<close> and \<open>DateFromTime\<close> of ECMA-262), computed in
  closed form over 400-year eras that start on 1 March.
\<close>

definition civilFromDays :: "int \<Rightarrow> int \<times> int \<times> int" where
  "civilFromDays days =
     (let z = days + 719468;
          era = z div 146097;
          doe = z mod 146097;
          yoe = (doe - doe div 1460 + doe div 36524 - doe div 146096) div 365;
          doy = doe - (365 * yoe + yoe div 4 - yoe div 100);
          mp = (5 * doy + 2) div 153;
          d = doy - (153 * mp + 2) div 5 + 1;
          m = (if mp < 10 then mp + 3 else mp - 9);
          y = yoe + era * 400 + (if m \<le> 2 then 1 else 0)
      in (y, m, d))"

text \<open>
  \<^verbatim>\<open>Date.prototype.toISOString\<close> for a valid time value: YYYY-MM-DDTHH:mm:ss.sssZ, the
  year written with a sign and six digits beyond 9999.
\<close>

definition isoString :: "int \<Rightarrow> string" where
  "isoString ms =
     (let (y, m, d) = civilFromDays (ms div 86400000);
          t = ms mod 86400000
      in (if y \<le> 9999 then pad 4 y else ''+'' @ pad 6 y) @ ''-'' @ pad 2 m @ ''-'' @ pad 2 d
         @ ''T'' @ pad 2 (t div 3600000) @ '':'' @ pad 2 (t div 60000 mod 60)
         @ '':'' @ pad 2 (t div 1000 mod 60) @ ''.'' @ pad 3 (t mod 1000) @ ''Z'')"

text \<open>\<^verbatim>\<open>toISOString\<close> throws a RangeError on an invalid date.\<close>

definition toISOString :: "int option \<Rightarrow> error + string" where
  "toISOString date =
     (case date of
        None \<Rightarrow> Inl (RangeError ''Invalid time value'')
      | Some ms \<Rightarrow> Inr (isoString ms))"

section \<open>The timestamp normalizer\<close>

text \<open>The test of line 310 on the value of an entry.\<close>

fun isNumericStr :: "json \<Rightarrow> bool" where
  "isNumericStr (Str s) = isNumericString s"
| "isNumericStr v = False"

text \<open>Lines 311 and 312 for a value that passed the test.\<close>

fun secondsToISO :: "json \<Rightarrow> error + json" where
  "secondsToISO (Str s) = map_sum id Str (toISOString (newDate (times1000 (parseFloat s))))"
| "secondsToISO v = Inr v"

text \<open>
  \<^verbatim>\<open>convertTimestampsToISO\<close> (lines 297 to 321). The array case is \<^verbatim>\<open>obj.map\<close>, the object case
  the loop over \<^verbatim>\<open>Object.entries\<close> of the copy, which assigns to the key it visits and so keeps
  keys and their order. An exception leaves by the first element or entry that raises it.
\<close>

fun convertTimestampsToISO :: "json \<Rightarrow> error + json"
  and convertItems :: "json list \<Rightarrow> error + json list"
  and convertEntries :: "(string \<times> json) list \<Rightarrow> error + (string \<times> json) list"
where
  "convertTimestampsToISO Null = Inr Null"
| "convertTimestampsToISO (Arr xs) = map_sum id Arr (convertItems xs)"
| "convertTimestampsToISO (Obj fs) = map_sum id Obj (convertEntries fs)"
| "convertTimestampsToISO (Bool b) = Inr (Bool b)"
| "convertTimestampsToISO (Num x) = Inr (Num x)"
| "convertTimestampsToISO (Str s) = Inr (Str s)"
| "convertItems [] = Inr []"
| "convertItems (x # xs) =
     (case convertTimestampsToISO x of
        Inl e \<Rightarrow> Inl e
      | Inr y \<Rightarrow> (case convertItems xs of Inl e \<Rightarrow> Inl e | Inr ys \<Rightarrow> Inr (y # ys)))"
| "convertEntries [] = Inr []"
| "convertEntries ((key, v) # rest) =
     (case (if isTimestampKey key \<and> isNumericStr v then secondsToISO v
            else if typeofObject v then convertTimestampsToISO v
            else Inr v) of
        Inl e \<Rightarrow> Inl e
      | Inr v' \<Rightarrow> (case convertEntries rest of Inl e \<Rightarrow> Inl e | Inr rest' \<Rightarrow> Inr ((key, v') # rest')))"

text \<open>
  The contract of the normalizer in the words of the specification: the same tree, except
  that the string of every timestamp field is replaced by the instant that \<open>instant\<close> gives
  for it.
\<close>

fun rewriteTimestamps :: "(string \<Rightarrow> string) \<Rightarrow> json \<Rightarrow> json"
  and rewriteItems :: "(string \<Rightarrow> string) \<Rightarrow> json list \<Rightarrow> json list"
  and rewriteEntries :: "(string \<Rightarrow> string) \<Rightarrow> (string \<times> json) list \<Rightarrow> (string \<times> json) list"
where
  "rewriteTimestamps instant (Arr xs) = Arr (rewriteItems instant xs)"
| "rewriteTimestamps instant (Obj fs) = Obj (rewriteEntries instant fs)"
| "rewriteTimestamps instant Null = Null"
| "rewriteTimestamps instant (Bool b) = Bool b"
| "rewriteTimestamps instant (Num x) = Num x"
| "rewriteTimestamps instant (Str s) = Str s"
| "rewriteItems instant [] = []"
| "rewriteItems instant (x # xs) = rewriteTimestamps instant x # rewriteItems instant xs"
| "rewriteEntries instant [] = []"
| "rewriteEntries instant ((key, v) # rest) =
     (key, case v of
             Str s \<Rightarrow> if isTimestampKey key \<and> isNumericString s then Str (instant s) else Str s
           | _ \<Rightarrow> rewriteTimestamps instant v)
     # rewriteEntries instant rest"

text \<open>
  The instant at that many seconds since the epoch, to the millisecond, computed on the
  decimal itself.
\<close>

definition exactInstant :: "string \<Rightarrow> string" where
  "exactInstant s =
     (let whole = takeWhile isDigit s; ds = drop (Suc (length whole)) s
      in isoString (digitsValue (whole @ ds) * 1000 div 10 ^ length ds))"

text \<open>
  The time value that the code computes for a numeric string, and the ISO string of a
  valid one (for an invalid one, which has no ISO string, the string itself).
\<close>

definition dateOf :: "string \<Rightarrow> int option" where
  "dateOf s = newDate (times1000 (parseFloat s))"

definition dateInstant :: "string \<Rightarrow> string" where
  "dateInstant s = (case dateOf s of None \<Rightarrow> s | Some ms \<Rightarrow> isoString ms)"

text \<open>Every timestamp field of the tree denotes a valid date.\<close>

fun inDateRange :: "json \<Rightarrow> bool"
  and itemsInDateRange :: "json list \<Rightarrow> bool"
  and entriesInDateRange :: "(string \<times> json) list \<Rightarrow> bool"
where
  "inDateRange (Arr xs) = itemsInDateRange xs"
| "inDateRange (Obj fs) = entriesInDateRange fs"
| "inDateRange Null = True"
| "inDateRange (Bool b) = True"
| "inDateRange (Num x) = True"
| "inDateRange (Str s) = True"
| "itemsInDateRange [] = True"
| "itemsInDateRange (x # xs) = (inDateRange x \<and> itemsInDateRange xs)"
| "entriesInDateRange [] = True"
| "entriesInDateRange ((key, v) # rest) =
     ((case v of
         Str s \<Rightarrow> if isTimestampKey key \<and> isNumericString s then dateOf s \<noteq> None else True
       | _ \<Rightarrow> inDateRange v)
      \<and> entriesInDateRange rest)"

text \<open>Sequencing of two fallible steps: the second runs on the value the first returns.\<close>

definition andThen :: "error + 'a \<Rightarrow> ('a \<Rightarrow> error + 'b) \<Rightarrow> error + 'b" where
  "andThen r f = (case r of Inl e \<Rightarrow> Inl e | Inr v \<Rightarrow> f v)"

section \<open>The identity resolver\<close>

record identity =
  displayName :: string
  username :: string

text \<open>
  The body of a \<^verbatim>\<open>users.info\<close> reply as far as the code reads it. An absent property is
  \<open>None\<close>; \<open>display_name\<close> is \<^verbatim>\<open>data.user.profile?.display_name\<close>. The names are strings,
  as the result type declared for \<^verbatim>\<open>memoizedGetUser\<close> says.
\<close>

record slack_user =
  display_name :: "string option"
  real_name :: "string option"
  name :: "string option"

record users_info =
  ok :: bool
  user :: "slack_user option"

text \<open>\<^verbatim>\<open>a || b\<close> for a string property that may be absent: the empty string is falsy.\<close>

definition orElse :: "string option \<Rightarrow> string \<Rightarrow> string" where
  "orElse a b = (case a of None \<Rightarrow> b | Some s \<Rightarrow> if s = [] then b else s)"

text \<open>
  The function handed to \<^verbatim>\<open>pMemoize\<close> (lines 276 to 294), applied to what \<^verbatim>\<open>fetch\<close> and
  \<^verbatim>\<open>response.json()\<close> produce for the identifier: \<open>Inl\<close> when either throws (or the body
  is \<^verbatim>\<open>null\<close>, so that reading \<^verbatim>\<open>data.ok\<close> throws), which the \<^verbatim>\<open>catch\<close> turns into the degraded
  record.
\<close>

definition getUser :: "error + users_info \<Rightarrow> string \<Rightarrow> identity" where
  "getUser reply userId =
     (case reply of
        Inl e \<Rightarrow> \<lparr>displayName = userId, username = userId\<rparr>
      | Inr data \<Rightarrow>
          (case (if ok data then user data else None) of
             Some u \<Rightarrow>
               \<lparr>displayName =
                  orElse (display_name u) (orElse (real_name u) (orElse (name u) userId)),
                username = orElse (name u) userId\<rparr>
           | None \<Rightarrow> \<lparr>displayName = userId, username = userId\<rparr>))"

text \<open>
  The calls the client sends to the platform, with the argument values they are built
  from (\<open>None\<close> for \<^verbatim>\<open>undefined\<close>), named after the methods of \<^verbatim>\<open>SlackClient\<close>.
\<close>

datatype api_call =
    GetChannels "json option" "json option"
  | PostMessage "json option" "json option"
  | PostReply "json option" "json option" "json option"
  | AddReaction "json option" "json option" "json option"
  | GetChannelHistory "json option" "json option"
  | GetThreadReplies "json option" "json option"
  | GetUsers "json option" "json option"
  | GetUserProfile "json option"
  | SearchMessages "json option" "json option" "json option" "json option" "json option" "json option"

text \<open>
  The state of the process: the cache of the memoized lookup, and, to make the effects of
  \<^verbatim>\<open>fetch\<close> visible, the \<^verbatim>\<open>users.info\<close> requests and the gateway calls issued so far, oldest
  first.
\<close>

record world =
  cache :: "string \<rightharpoonup> identity"
  lookups :: "string list"
  calls :: "api_call list"

definition emptyWorld :: world where
  "emptyWorld = \<lparr>cache = Map.empty, lookups = [], calls = []\<rparr>"

text \<open>What the platform answers to a \<^verbatim>\<open>users.info\<close> request and to a gateway call.\<close>

type_synonym upstream = "string \<Rightarrow> error + users_info"

type_synonym gateway = "api_call \<Rightarrow> error + json"

text \<open>
  \<^verbatim>\<open>memoizedGetUser\<close> for calls that run one after the other. \<^verbatim>\<open>pMemoize\<close> comes from the
  package p-memoize, outside the repository; by its contract a key found in the cache is
  answered from it, and otherwise the wrapped function runs and the value its promise
  fulfils with is stored under the key. The wrapped function catches every error, so its
  promise always fulfils.
\<close>

definition memoizedGetUser :: "upstream \<Rightarrow> string \<Rightarrow> world \<Rightarrow> identity \<times> world" where
  "memoizedGetUser up userId w =
     (case cache w userId of
        Some userInfo \<Rightarrow> (userInfo, w)
      | None \<Rightarrow>
          (let userInfo = getUser (up userId) userId
           in (userInfo, w\<lparr>cache := (cache w)(userId \<mapsto> userInfo),
                            lookups := lookups w @ [userId]\<rparr>)))"

text \<open>
  A lookup that fails: \<^verbatim>\<open>fetch\<close> or \<^verbatim>\<open>response.json()\<close> throws, or the reply is not \<^verbatim>\<open>ok\<close> or
  carries no user.
\<close>

definition lookupFailed :: "error + users_info \<Rightarrow> bool" where
  "lookupFailed reply = (case reply of Inl e \<Rightarrow> True | Inr data \<Rightarrow> \<not> ok data \<or> user data = None)"

section \<open>The response enricher\<close>

text \<open>
  The guard of lines 335 and 336 on the copied object: the identifier to look up, if the
  lookup is made.
\<close>

definition needsUserInfo :: "(string \<times> json) list \<Rightarrow> string option" where
  "needsUserInfo enriched =
     (case map_of enriched ''user'' of
        Some (Str u) \<Rightarrow>
          if u \<noteq> [] \<and> isUserId u \<and> \<not> truthyField enriched ''user_display_name''
          then Some u else None
      | _ \<Rightarrow> None)"

text \<open>
  Lines 335 to 340. An assignment to a property keeps its place among the entries when the
  object has the key and appends it otherwise, as \<open>AList.update\<close> does.
\<close>

definition addUserInfo ::
  "upstream \<Rightarrow> (string \<times> json) list \<Rightarrow> world \<Rightarrow> (string \<times> json) list \<times> world" where
  "addUserInfo up enriched w =
     (case needsUserInfo enriched of
        None \<Rightarrow> (enriched, w)
      | Some u \<Rightarrow>
          (let (userInfo, w') = memoizedGetUser up u w
           in (AList.update ''user_username'' (Str (username userInfo))
                 (AList.update ''user_display_name'' (Str (displayName userInfo)) enriched),
               w')))"

text \<open>The number of arrays and objects of a tree, which the added strings do not change.\<close>

fun weight :: "json \<Rightarrow> nat"
  and weightItems :: "json list \<Rightarrow> nat"
  and weightEntries :: "(string \<times> json) list \<Rightarrow> nat"
where
  "weight (Arr xs) = Suc (weightItems xs)"
| "weight (Obj fs) = Suc (weightEntries fs)"
| "weight Null = 0"
| "weight (Bool b) = 0"
| "weight (Num x) = 0"
| "weight (Str s) = 0"
| "weightItems [] = 0"
| "weightItems (x # xs) = weight x + weightItems xs"
| "weightEntries [] = 0"
| "weightEntries ((key, v) # rest) = weight v + weightEntries rest"

text \<open>
  \<^verbatim>\<open>enrichWithUserInfo\<close> (lines 323 to 350), the state threaded through the lookups. The
  entries of the object are visited one after the other, each \<^verbatim>\<open>await\<close>ed. The elements
  of an array are started together by \<^verbatim>\<open>Promise.all\<close>; they are run here from left to right,
  which yields the same tree, since a lookup answers the same for an identifier whenever
  it is made. The order of the lookups that the state records for an array is that of this
  run, not the one in which \<^verbatim>\<open>Promise.all\<close> issues them.
\<close>

function enrichWithUserInfo :: "upstream \<Rightarrow> json \<Rightarrow> world \<Rightarrow> json \<times> world"
  and enrichItems :: "upstream \<Rightarrow> json list \<Rightarrow> world \<Rightarrow> json list \<times> world"
  and enrichEntries ::
    "upstream \<Rightarrow> (string \<times> json) list \<Rightarrow> world \<Rightarrow> (string \<times> json) list \<times> world"
where
  "enrichWithUserInfo up Null w = (Null, w)"
| "enrichWithUserInfo up (Bool b) w = (Bool b, w)"
| "enrichWithUserInfo up (Num x) w = (Num x, w)"
| "enrichWithUserInfo up (Str s) w = (Str s, w)"
| "enrichWithUserInfo up (Arr xs) w =
     (let (ys, w') = enrichItems up xs w in (Arr ys, w'))"
| "enrichWithUserInfo up (Obj fs) w =
     (let (enriched, w1) = addUserInfo up fs w;
          (entries, w2) = enrichEntries up enriched w1
      in (Obj entries, w2))"
| "enrichItems up [] w = ([], w)"
| "enrichItems up (x # xs) w =
     (let (y, w1) = enrichWithUserInfo up x w;
          (ys, w2) = enrichItems up xs w1
      in (y # ys, w2))"
| "enrichEntries up [] w = ([], w)"
| "enrichEntries up ((key, v) # rest) w =
     (let (v', w1) = (if typeofObject v then enrichWithUserInfo up v w else (v, w));
          (rest', w2) = enrichEntries up rest w1
      in ((key, v') # rest', w2))"
  by pat_completeness auto
termination enrichWithUserInfo
proof (relation "measures
    [\<lambda>a. case a of
            Inl (up, v, w) \<Rightarrow> weight v
          | Inr (Inl (up, xs, w)) \<Rightarrow> weightItems xs
          | Inr (Inr (up, fs, w)) \<Rightarrow> weightEntries fs,
     \<lambda>a. case a of
            Inl (up, v, w) \<Rightarrow> 0
          | Inr (Inl (up, xs, w)) \<Rightarrow> Suc (length xs)
          | Inr (Inr (up, fs, w)) \<Rightarrow> Suc (length fs)]")
  have update: "weightEntries (AList.update k (Str s) fs) \<le> weightEntries fs" for k s fs
    by (induction fs) auto
  have added: "weightEntries (fst (addUserInfo up fs w)) \<le> weightEntries fs" for up fs w
  proof (cases "needsUserInfo fs")
    case None
    then show ?thesis by (simp add: addUserInfo_def)
  next
    case (Some u)
    have "weightEntries (AList.update ''user_username'' (Str a)
            (AList.update ''user_display_name'' (Str b) fs)) \<le> weightEntries fs" for a b
      using update [of "''user_username''" a "AList.update ''user_display_name'' (Str b) fs"]
            update [of "''user_display_name''" b fs]
      by linarith
    with Some show ?thesis
      by (simp add: addUserInfo_def split: prod.splits)
  qed
  show "wf (measures
    [\<lambda>a. case a of
            Inl (up, v, w) \<Rightarrow> weight v
          | Inr (Inl (up, xs, w)) \<Rightarrow> weightItems xs
          | Inr (Inr (up, fs, w)) \<Rightarrow> weightEntries fs,
     \<lambda>a. case a of
            Inl (up, v, w) \<Rightarrow> 0
          | Inr (Inl (up, xs, w)) \<Rightarrow> Suc (length xs)
          | Inr (Inr (up, fs, w)) \<Rightarrow> Suc (length fs)])"
    by simp
  show "\<And>up fs w x xa y. x = addUserInfo up fs w \<Longrightarrow> (xa, y) = x \<Longrightarrow>
      (Inr (Inr (up, xa, y)), Inl (up, Obj fs, w)) \<in> measures
    [\<lambda>a. case a of
            Inl (up, v, w) \<Rightarrow> weight v
          | Inr (Inl (up, xs, w)) \<Rightarrow> weightItems xs
          | Inr (Inr (up, fs, w)) \<Rightarrow> weightEntries fs,
     \<lambda>a. case a of
            Inl (up, v, w) \<Rightarrow> 0
          | Inr (Inl (up, xs, w)) \<Rightarrow> Suc (length xs)
          | Inr (Inr (up, fs, w)) \<Rightarrow> Suc (length fs)]"
  proof -
    fix up fs w x xa y
    assume "x = addUserInfo up fs w" and "(xa, y) = x"
    then have "xa = fst (addUserInfo up fs w)"
      by (metis fst_conv)
    with added [of up fs w] show "(Inr (Inr (up, xa, y)), Inl (up, Obj fs, w)) \<in> measures
    [\<lambda>a. case a of
            Inl (up, v, w) \<Rightarrow> weight v
          | Inr (Inl (up, xs, w)) \<Rightarrow> weightItems xs
          | Inr (Inr (up, fs, w)) \<Rightarrow> weightEntries fs,
     \<lambda>a. case a of
            Inl (up, v, w) \<Rightarrow> 0
          | Inr (Inl (up, xs, w)) \<Rightarrow> Suc (length xs)
          | Inr (Inr (up, fs, w)) \<Rightarrow> Suc (length fs)]"
      by simp
  qed
qed auto

section \<open>The gateway\<close>

text \<open>
  The methods of \<^verbatim>\<open>SlackClient\<close> receive the argument values as the request carries them;
  the casts of the handler check nothing. Before a method calls \<^verbatim>\<open>fetch\<close> it converts some
  of them, and a conversion can throw. \<open>ToPrimitive\<close> on an object finds no callable
  \<^verbatim>\<open>toString\<close> when the object has a property of that name of its own (no value of a JSON
  tree is callable) and \<^verbatim>\<open>valueOf\<close> returns the object itself; on an array it joins the
  converted elements, \<^verbatim>\<open>null\<close> counting as the empty string.
\<close>

fun cannotConvert :: "json \<Rightarrow> bool"
  and cannotConvertAny :: "json list \<Rightarrow> bool"
where
  "cannotConvert (Obj fs) = (map_of fs ''toString'' \<noteq> None)"
| "cannotConvert (Arr xs) = cannotConvertAny xs"
| "cannotConvert Null = False"
| "cannotConvert (Bool b) = False"
| "cannotConvert (Num x) = False"
| "cannotConvert (Str s) = False"
| "cannotConvertAny [] = False"
| "cannotConvertAny (x # xs) = (cannotConvert x \<or> cannotConvertAny xs)"

text \<open>
  The TypeError, if any, of converting an argument to a string or a number, as
  \<^verbatim>\<open>Math.min(limit, 200)\<close> and the constructor of \<^verbatim>\<open>URLSearchParams\<close> do (\<^verbatim>\<open>undefined\<close>
  converts). The messages are those of the engine of Node.
\<close>

definition conversionError :: "json option \<Rightarrow> error option" where
  "conversionError v =
     (case v of
        None \<Rightarrow> None
      | Some x \<Rightarrow>
          if cannotConvert x then Some (TypeError ''Cannot convert object to primitive value'')
          else None)"

text \<open>\<^verbatim>\<open>if (cursor) params.append("cursor", cursor)\<close>: a truthy value is converted.\<close>

definition appendError :: "json option \<Rightarrow> error option" where
  "appendError v =
     (case v of
        None \<Rightarrow> None
      | Some x \<Rightarrow> if truthy x then conversionError (Some x) else None)"

text \<open>
  \<^verbatim>\<open>limit.toString()\<close> of line 433, where the default has replaced \<^verbatim>\<open>undefined\<close> only: the
  property read throws on \<^verbatim>\<open>null\<close>, and a \<^verbatim>\<open>toString\<close> of the object's own is not a function.
\<close>

definition limitToString :: "json option \<Rightarrow> error option" where
  "limitToString limit =
     (case limit of
        None \<Rightarrow> None
      | Some Null \<Rightarrow>
          Some (TypeError (''Cannot read properties of null (reading '' @ [CHR 0x27]
                  @ ''toString'' @ [CHR 0x27] @ '')''))
      | Some (Obj fs) \<Rightarrow>
          if map_of fs ''toString'' \<noteq> None
          then Some (TypeError ''limit.toString is not a function'') else None
      | Some x \<Rightarrow> conversionError (Some x))"

text \<open>The first exception of the steps that build a request, in the order they run.\<close>

fun firstError :: "error option list \<Rightarrow> error option" where
  "firstError [] = None"
| "firstError (None # rest) = firstError rest"
| "firstError (Some e # rest) = Some e"

text \<open>\<^verbatim>\<open>fetch\<close> followed by \<^verbatim>\<open>response.json()\<close>: the call is recorded and the platform answers.\<close>

definition fetchJson :: "gateway \<Rightarrow> api_call \<Rightarrow> world \<Rightarrow> (error + json) \<times> world" where
  "fetchJson fetch c w = (fetch c, w\<lparr>calls := calls w @ [c]\<rparr>)"

text \<open>
  A method that builds its request before it fetches: an exception of the building leaves
  the method at once, and nothing is sent.
\<close>

definition buildAndFetch ::
  "error option list \<Rightarrow> gateway \<Rightarrow> api_call \<Rightarrow> world \<Rightarrow> (error + json) \<times> world" where
  "buildAndFetch building fetch c w =
     (case firstError building of
        Some e \<Rightarrow> (Inl e, w)
      | None \<Rightarrow> fetchJson fetch c w)"

text \<open>The two ways in which the methods of \<^verbatim>\<open>SlackClient\<close> return \<^verbatim>\<open>data\<close>.\<close>

definition returnConverted :: "(error + json) \<times> world \<Rightarrow> (error + json) \<times> world" where
  "returnConverted r =
     (case r of
        (Inl e, w) \<Rightarrow> (Inl e, w)
      | (Inr data, w) \<Rightarrow> (convertTimestampsToISO data, w))"

definition returnEnriched :: "upstream \<Rightarrow> (error + json) \<times> world \<Rightarrow> (error + json) \<times> world" where
  "returnEnriched up r =
     (case r of
        (Inl e, w) \<Rightarrow> (Inl e, w)
      | (Inr data, w) \<Rightarrow>
          (case convertTimestampsToISO data of
             Inl e \<Rightarrow> (Inl e, w)
           | Inr converted \<Rightarrow>
               (let (response, w') = enrichWithUserInfo up converted w in (Inr response, w'))))"

text \<open>
  The methods (lines 352 to 519). \<^verbatim>\<open>getChannels\<close> and \<^verbatim>\<open>getUsers\<close> take the minimum of the limit
  and append a truthy cursor; \<^verbatim>\<open>getChannelHistory\<close> calls \<^verbatim>\<open>limit.toString()\<close> and hands the
  channel to \<^verbatim>\<open>URLSearchParams\<close>, as \<^verbatim>\<open>getThreadReplies\<close>, \<^verbatim>\<open>getUserProfile\<close> and
  \<^verbatim>\<open>searchMessages\<close> do with their arguments. The three methods that post serialise their
  arguments with \<^verbatim>\<open>JSON.stringify\<close>, which does not throw on a JSON value.
\<close>

definition getChannels ::
  "gateway \<Rightarrow> json option \<Rightarrow> json option \<Rightarrow> world \<Rightarrow> (error + json) \<times> world" where
  "getChannels fetch limit cursor w =
     returnConverted
       (buildAndFetch [conversionError limit, appendError cursor] fetch (GetChannels limit cursor) w)"

definition postMessage ::
  "gateway \<Rightarrow> json option \<Rightarrow> json option \<Rightarrow> world \<Rightarrow> (error + json) \<times> world" where
  "postMessage fetch channel_id text w =
     returnConverted (fetchJson fetch (PostMessage channel_id text) w)"

definition postReply ::
  "gateway \<Rightarrow> json option \<Rightarrow> json option \<Rightarrow> json option \<Rightarrow> world \<Rightarrow> (error + json) \<times> world" where
  "postReply fetch channel_id thread_ts text w =
     returnConverted (fetchJson fetch (PostReply channel_id thread_ts text) w)"

definition addReaction ::
  "gateway \<Rightarrow> json option \<Rightarrow> json option \<Rightarrow> json option \<Rightarrow> world \<Rightarrow> (error + json) \<times> world" where
  "addReaction fetch channel_id timestamp reaction w =
     returnConverted (fetchJson fetch (AddReaction channel_id timestamp reaction) w)"

definition getChannelHistory ::
  "gateway \<Rightarrow> upstream \<Rightarrow> json option \<Rightarrow> json option \<Rightarrow> world \<Rightarrow> (error + json) \<times> world" where
  "getChannelHistory fetch up channel_id limit w =
     returnEnriched up
       (buildAndFetch [limitToString limit, conversionError channel_id] fetch
          (GetChannelHistory channel_id limit) w)"

definition getThreadReplies ::
  "gateway \<Rightarrow> upstream \<Rightarrow> json option \<Rightarrow> json option \<Rightarrow> world \<Rightarrow> (error + json) \<times> world" where
  "getThreadReplies fetch up channel_id thread_ts w =
     returnEnriched up
       (buildAndFetch [conversionError channel_id, conversionError thread_ts] fetch
          (GetThreadReplies channel_id thread_ts) w)"

definition getUsers ::
  "gateway \<Rightarrow> json option \<Rightarrow> json option \<Rightarrow> world \<Rightarrow> (error + json) \<times> world" where
  "getUsers fetch limit cursor w =
     returnConverted
       (buildAndFetch [conversionError limit, appendError cursor] fetch (GetUsers limit cursor) w)"

definition getUserProfile :: "gateway \<Rightarrow> json option \<Rightarrow> world \<Rightarrow> (error + json) \<times> world" where
  "getUserProfile fetch user_id w =
     returnConverted (buildAndFetch [conversionError user_id] fetch (GetUserProfile user_id) w)"

definition searchMessages ::
  "gateway \<Rightarrow> upstream \<Rightarrow> json option \<Rightarrow> json option \<Rightarrow> json option \<Rightarrow> json option \<Rightarrow>
   json option \<Rightarrow> json option \<Rightarrow> world \<Rightarrow> (error + json) \<times> world" where
  "searchMessages fetch up query count cursor highlight sort' sort_dir w =
     returnEnriched up
       (buildAndFetch
          [conversionError count, conversionError query, appendError cursor, appendError sort',
           appendError sort_dir]
          fetch (SearchMessages query count cursor highlight sort' sort_dir) w)"

section \<open>The tool router\<close>


text \<open>
  The body of the \<^verbatim>\<open>try\<close> block of the handler (lines 553 to 696) up to the value of
  \<^verbatim>\<open>response\<close>: \<open>Inl\<close> is an exception on its way to the \<^verbatim>\<open>catch\<close>. The arguments are the
  entries of \<^verbatim>\<open>request.params.arguments\<close>, \<open>None\<close> when the request has none.
\<close>

definition toolResponse ::
  "gateway \<Rightarrow> upstream \<Rightarrow> string \<Rightarrow> (string \<times> json) list option \<Rightarrow> world
   \<Rightarrow> (error + json) \<times> world" where
  "toolResponse fetch up tool arguments w =
     (case arguments of
        None \<Rightarrow> (Inl (Error ''No arguments provided''), w)
      | Some args \<Rightarrow>
          if tool = ''slack_list_channels'' then
            getChannels fetch (map_of args ''limit'') (map_of args ''cursor'') w
          else if tool = ''slack_post_message'' then
            if \<not> truthyField args ''channel_id'' \<or> \<not> truthyField args ''text''
            then (Inl (Error ''Missing required arguments: channel_id and text''), w)
            else postMessage fetch (map_of args ''channel_id'') (map_of args ''text'') w
          else if tool = ''slack_reply_to_thread'' then
            if \<not> truthyField args ''channel_id'' \<or> \<not> truthyField args ''thread_ts''
               \<or> \<not> truthyField args ''text''
            then (Inl (Error ''Missing required arguments: channel_id, thread_ts, and text''), w)
            else postReply fetch (map_of args ''channel_id'') (map_of args ''thread_ts'')
                   (map_of args ''text'') w
          else if tool = ''slack_add_reaction'' then
            if \<not> truthyField args ''channel_id'' \<or> \<not> truthyField args ''timestamp''
               \<or> \<not> truthyField args ''reaction''
            then (Inl (Error ''Missing required arguments: channel_id, timestamp, and reaction''), w)
            else addReaction fetch (map_of args ''channel_id'') (map_of args ''timestamp'')
                   (map_of args ''reaction'') w
          else if tool = ''slack_get_channel_history'' then
            if \<not> truthyField args ''channel_id''
            then (Inl (Error ''Missing required argument: channel_id''), w)
            else getChannelHistory fetch up (map_of args ''channel_id'') (map_of args ''limit'') w
          else if tool = ''slack_get_thread_replies'' then
            if \<not> truthyField args ''channel_id'' \<or> \<not> truthyField args ''thread_ts''
            then (Inl (Error ''Missing required arguments: channel_id and thread_ts''), w)
            else getThreadReplies fetch up (map_of args ''channel_id'')
                   (map_of args ''thread_ts'') w
          else if tool = ''slack_get_users'' then
            getUsers fetch (map_of args ''limit'') (map_of args ''cursor'') w
          else if tool = ''slack_get_user_profile'' then
            if \<not> truthyField args ''user_id''
            then (Inl (Error ''Missing required argument: user_id''), w)
            else getUserProfile fetch (map_of args ''user_id'') w
          else if tool = ''slack_search_messages'' then
            if \<not> truthyField args ''query''
            then (Inl (Error ''Missing required argument: query''), w)
            else searchMessages fetch up (map_of args ''query'') (map_of args ''count'')
                   (map_of args ''cursor'') (map_of args ''highlight'') (map_of args ''sort'')
                   (map_of args ''sort_dir'') w
          else (Inl (Error (''Unknown tool: '' @ tool)), w))"

text \<open>
  A content item \<^verbatim>\<open>{ type: "text", text: JSON.stringify(v) }\<close>, the serialisation kept
  symbolic: the item carries the value that is serialised.
\<close>

datatype content = Text json

text \<open>
  The handler of \<^verbatim>\<open>CallToolRequest\<close> (lines 550 to 710): every case returns the serialised
  response as one text item, and the \<^verbatim>\<open>catch\<close> returns the message of the error in the same
  form.
\<close>

definition callTool ::
  "gateway \<Rightarrow> upstream \<Rightarrow> string \<Rightarrow> (string \<times> json) list option \<Rightarrow> world
   \<Rightarrow> content list \<times> world" where
  "callTool fetch up tool arguments w =
     (case toolResponse fetch up tool arguments w of
        (Inr response, w') \<Rightarrow> ([Text response], w')
      | (Inl error, w') \<Rightarrow> ([Text (Obj [(''error'', Str (message error))])], w'))"







section \<open>Positions in a tree and what enrichment keeps\<close>

text \<open>A position in a tree: the keys and indices that lead to it from the root.\<close>

datatype step = Key string | Index nat

fun valueAt :: "step list \<Rightarrow> json \<Rightarrow> json option" where
  "valueAt [] v = Some v"
| "valueAt (Key k # path) (Obj fs) =
     (case map_of fs k of None \<Rightarrow> None | Some v \<Rightarrow> valueAt path v)"
| "valueAt (Index i # path) (Arr xs) =
     (if i < length xs then valueAt path (xs ! i) else None)"
| "valueAt (s # path) v = None"

text \<open>
  A position survives enrichment when it does not pass through the \<^verbatim>\<open>user_username\<close> field
  of an object for which the guard holds: line 339 assigns that field before the loop of
  lines 343 to 347 descends.
\<close>

fun survives :: "step list \<Rightarrow> json \<Rightarrow> bool" where
  "survives [] v = True"
| "survives (Key k # path) (Obj fs) =
     (\<not> (k = ''user_username'' \<and> needsUserInfo fs \<noteq> None)
      \<and> (case map_of fs k of None \<Rightarrow> True | Some v \<Rightarrow> survives path v))"
| "survives (Index i # path) (Arr xs) =
     (if i < length xs then survives path (xs ! i) else True)"
| "survives (s # path) v = True"

text \<open>What the resolver returns for an identifier in a given state.\<close>

definition resolved :: "upstream \<Rightarrow> world \<Rightarrow> string \<Rightarrow> identity" where
  "resolved up w u = fst (memoizedGetUser up u w)"

text \<open>
  The object \<open>entries\<close> carries the two names that \<open>r\<close> gives, if the guard holds for the
  object \<open>fs\<close> it comes from.
\<close>

definition namesAdded ::
  "(string \<Rightarrow> identity) \<Rightarrow> (string \<times> json) list \<Rightarrow> (string \<times> json) list \<Rightarrow> bool" where
  "namesAdded r fs entries =
     (case needsUserInfo fs of
        None \<Rightarrow> True
      | Some u \<Rightarrow>
          map_of entries ''user_display_name'' = Some (Str (displayName (r u)))
          \<and> map_of entries ''user_username'' = Some (Str (username (r u))))"

text \<open>The keys that lines 338 and 339 assign in an object for which the guard holds.\<close>

definition overwrittenKeys :: "(string \<times> json) list \<Rightarrow> string list" where
  "overwrittenKeys fs =
     (case needsUserInfo fs of
        None \<Rightarrow> []
      | Some u \<Rightarrow> [''user_display_name'', ''user_username''])"

text \<open>
  Non-destructiveness in the words of the specification: \<open>keptIn except before after\<close> holds
  when every array of \<open>before\<close> is an array of the same length in \<open>after\<close>, element by element,
  and the entries of every object of \<open>before\<close> are, key by key and in the same order, the
  first entries of the object in \<open>after\<close>, each value kept in the same sense; further
  entries may follow. The keys that \<open>except\<close> lists for an object are present but need not
  keep their value. The claim as stated is \<open>keptIn (\<lambda>fs. [])\<close>.
\<close>

fun keptIn :: "((string \<times> json) list \<Rightarrow> string list) \<Rightarrow> json \<Rightarrow> json \<Rightarrow> bool"
  and itemsKeptIn :: "((string \<times> json) list \<Rightarrow> string list) \<Rightarrow> json list \<Rightarrow> json list \<Rightarrow> bool"
  and entriesKeptIn ::
    "((string \<times> json) list \<Rightarrow> string list) \<Rightarrow> string list \<Rightarrow> (string \<times> json) list
     \<Rightarrow> (string \<times> json) list \<Rightarrow> bool"
where
  "keptIn except (Arr xs) after =
     (case after of Arr ys \<Rightarrow> itemsKeptIn except xs ys | _ \<Rightarrow> False)"
| "keptIn except (Obj fs) after =
     (case after of Obj gs \<Rightarrow> entriesKeptIn except (except fs) fs gs | _ \<Rightarrow> False)"
| "keptIn except Null after = (after = Null)"
| "keptIn except (Bool b) after = (after = Bool b)"
| "keptIn except (Num x) after = (after = Num x)"
| "keptIn except (Str s) after = (after = Str s)"
| "itemsKeptIn except [] ys = (ys = [])"
| "itemsKeptIn except (x # xs) ys =
     (case ys of [] \<Rightarrow> False | y # ys' \<Rightarrow> keptIn except x y \<and> itemsKeptIn except xs ys')"
| "entriesKeptIn except keys [] gs = True"
| "entriesKeptIn except keys ((key, v) # rest) gs =
     (case gs of
        [] \<Rightarrow> False
      | (key', v') # gs' \<Rightarrow>
          key' = key \<and> (key \<in> set keys \<or> keptIn except v v')
          \<and> entriesKeptIn except keys rest gs')"

text \<open>
  A platform for the examples: it knows the user \<^verbatim>\<open>U123\<close>, and the lookup of any other
  identifier fails.
\<close>

definition workspace :: upstream where
  "workspace u =
     (if u = ''U123''
      then Inr \<lparr>ok = True,
                user = Some \<lparr>display_name = Some ''Ada'', real_name = Some ''Ada Lovelace'',
                              name = Some ''ada''\<rparr>\<rparr>
      else Inl (TypeError ''fetch failed''))"

section \<open>Properties of the timestamp normalizer\<close>

lemma numeric_chars:
  assumes "isNumericString s" and "c \<in> set s"
  shows "isDigit c \<or> c = CHR ''.''"
proof -
  have split: "s = takeWhile isDigit s @ dropWhile isDigit s"
    by simp
  from assms(2) split have "c \<in> set (takeWhile isDigit s) \<or> c \<in> set (dropWhile isDigit s)"
    by (metis Un_iff set_append)
  then show ?thesis
  proof
    assume "c \<in> set (takeWhile isDigit s)"
    then show ?thesis by (auto dest: set_takeWhileD)
  next
    assume tail: "c \<in> set (dropWhile isDigit s)"
    with assms(1) show ?thesis
      by (cases "dropWhile isDigit s") (auto simp: isNumericString_def list_all_iff)
  qed
qed

lemma map_sum_id_Inr [simp]: "map_sum id f r = Inr v \<longleftrightarrow> (\<exists>x. r = Inr x \<and> v = f x)"
  by (cases r) auto

lemma map_sum_id_Inl [simp]: "map_sum id f r = Inl e \<longleftrightarrow> r = Inl e"
  by (cases r) auto

lemma isoString_ends_Z: "CHR ''Z'' \<in> set (isoString ms)"
  by (simp add: isoString_def Let_def case_prod_beta)

lemma isoString_not_numeric: "\<not> isNumericString (isoString ms)"
proof
  assume "isNumericString (isoString ms)"
  from numeric_chars [OF this isoString_ends_Z] show False
    by (simp add: isDigit_def)
qed

lemma secondsToISO_Str:
  "secondsToISO (Str s) =
     (case dateOf s of
        None \<Rightarrow> Inl (RangeError ''Invalid time value'')
      | Some ms \<Rightarrow> Inr (Str (isoString ms)))"
  by (simp add: dateOf_def toISOString_def split: option.splits)

lemma dateInstant_Some: "dateOf s = Some ms \<Longrightarrow> dateInstant s = isoString ms"
  by (simp add: dateInstant_def)

lemma secondsToISO_not_numeric:
  "isNumericStr v \<Longrightarrow> secondsToISO v = Inr v' \<Longrightarrow> \<not> isNumericStr v' \<and> \<not> typeofObject v'"
  by (cases v) (auto simp: toISOString_def isoString_not_numeric split: option.splits)

lemma convert_keeps_kind:
  "convertTimestampsToISO v = Inr v' \<Longrightarrow> typeofObject v \<Longrightarrow> typeofObject v' \<and> \<not> isNumericStr v'"
  by (cases v) (auto split: sum.splits)

lemma convert_idem_all:
  "(\<forall>v'. convertTimestampsToISO v = Inr v' \<longrightarrow> convertTimestampsToISO v' = Inr v')"
  "(\<forall>ys. convertItems xs = Inr ys \<longrightarrow> convertItems ys = Inr ys)"
  "(\<forall>gs. convertEntries fs = Inr gs \<longrightarrow> convertEntries gs = Inr gs)"
proof (induction v and xs and fs rule: convertTimestampsToISO_convertItems_convertEntries.induct)
  case (10 key v rest)
  show ?case
  proof (intro allI impI)
    fix gs
    assume run: "convertEntries ((key, v) # rest) = Inr gs"
    let ?field = "if isTimestampKey key \<and> isNumericStr v then secondsToISO v
                  else if typeofObject v then convertTimestampsToISO v else Inr v"
    from run obtain v' rest' where
      field: "?field = Inr v'" and tail: "convertEntries rest = Inr rest'"
      and gs: "gs = (key, v') # rest'"
      by (auto split: sum.splits)
    have again: "(if isTimestampKey key \<and> isNumericStr v' then secondsToISO v'
                  else if typeofObject v' then convertTimestampsToISO v' else Inr v') = Inr v'"
    proof (cases "isTimestampKey key \<and> isNumericStr v")
      case True
      with field secondsToISO_not_numeric [of v v'] show ?thesis by simp
    next
      case False
      note outer = this
      show ?thesis
      proof (cases "typeofObject v")
        case True
        with outer field have conv: "convertTimestampsToISO v = Inr v'"
          by (auto split: if_splits)
        from convert_keeps_kind [OF conv True] "10.IH"(1) [OF outer True] conv
        show ?thesis by simp
      next
        case False
        with outer field have "v' = v" by (auto split: if_splits)
        with outer False show ?thesis by auto
      qed
    qed
    from "10.IH"(2) [OF field] tail have "convertEntries rest' = Inr rest'" by simp
    with again gs show "convertEntries gs = Inr gs" by simp
  qed
qed (auto split: sum.splits)

lemma convert_characterised:
  "convertTimestampsToISO v =
     (if inDateRange v then Inr (rewriteTimestamps dateInstant v)
      else Inl (RangeError ''Invalid time value''))"
  "convertItems xs =
     (if itemsInDateRange xs then Inr (rewriteItems dateInstant xs)
      else Inl (RangeError ''Invalid time value''))"
  "convertEntries fs =
     (if entriesInDateRange fs then Inr (rewriteEntries dateInstant fs)
      else Inl (RangeError ''Invalid time value''))"
proof (induction v and xs and fs rule: convertTimestampsToISO_convertItems_convertEntries.induct)
  case (10 key v rest)
  then show ?case
    by (cases v)
       (auto simp: secondsToISO_Str dateInstant_Some simp del: secondsToISO.simps
             split: option.splits)
qed auto

subsection \<open>Idempotence\<close>

text \<open>
  C2. Timestamp normalization is idempotent: for every JSON tree \<open>T\<close>, normalizing the
  normalized tree gives the normalized tree again (and where the first run throws, so does
  the composition, with the same error). In particular the ISO string written for a
  timestamp field fails the numeric-string test, and a field that holds it is returned as
  it is by a further run.
\<close>

theorem convertTimestampsToISO_idempotent:
  "andThen (convertTimestampsToISO T) convertTimestampsToISO = convertTimestampsToISO T
   \<and> \<not> isNumericString (isoString ms)
   \<and> convertTimestampsToISO (Obj [(key, Str (isoString ms))]) = Inr (Obj [(key, Str (isoString ms))])"
proof (intro conjI)
  show "andThen (convertTimestampsToISO T) convertTimestampsToISO = convertTimestampsToISO T"
    using convert_idem_all(1) [of T]
    by (cases "convertTimestampsToISO T") (simp_all add: andThen_def)
  show "\<not> isNumericString (isoString ms)"
    by (rule isoString_not_numeric)
  then show "convertTimestampsToISO (Obj [(key, Str (isoString ms))])
               = Inr (Obj [(key, Str (isoString ms))])"
    by simp
qed

text \<open>
  An instance: a message with a thread under it is converted by the first run, and the
  second run returns the converted tree.
\<close>

theorem convertTimestampsToISO_idempotent_witness:
  "convertTimestampsToISO
     (Obj [(''ts'', Str ''1700000000.123456''),
           (''replies'', Arr [Obj [(''thread_ts'', Str ''1.005''), (''text'', Str ''42'')]])])
   = Inr (Obj [(''ts'', Str ''2023-11-14T22:13:20.123Z''),
           (''replies'', Arr [Obj [(''thread_ts'', Str ''1970-01-01T00:00:01.004Z''), (''text'', Str ''42'')]])])
   \<and> convertTimestampsToISO
     (Obj [(''ts'', Str ''2023-11-14T22:13:20.123Z''),
           (''replies'', Arr [Obj [(''thread_ts'', Str ''1970-01-01T00:00:01.004Z''), (''text'', Str ''42'')]])])
   = Inr (Obj [(''ts'', Str ''2023-11-14T22:13:20.123Z''),
           (''replies'', Arr [Obj [(''thread_ts'', Str ''1970-01-01T00:00:01.004Z''), (''text'', Str ''42'')]])])"
proof -
  have run: "convertTimestampsToISO
     (Obj [(''ts'', Str ''1700000000.123456''),
           (''replies'', Arr [Obj [(''thread_ts'', Str ''1.005''), (''text'', Str ''42'')]])])
   = Inr (Obj [(''ts'', Str ''2023-11-14T22:13:20.123Z''),
           (''replies'', Arr [Obj [(''thread_ts'', Str ''1970-01-01T00:00:01.004Z''), (''text'', Str ''42'')]])])"
    by code_simp
  from convertTimestampsToISO_idempotent
         [of "Obj [(''ts'', Str ''1700000000.123456''),
           (''replies'', Arr [Obj [(''thread_ts'', Str ''1.005''), (''text'', Str ''42'')]])]"]
  show ?thesis
    unfolding run by (simp add: andThen_def)
qed

subsection \<open>The contract of the normalizer\<close>

text \<open>
  C6, as stated, promises for every JSON value a tree in which each timestamp field holds
  the instant at that many seconds since the epoch, to the millisecond. Two inputs show
  that the code does otherwise. Ten trillion seconds lie beyond the range of \<^verbatim>\<open>Date\<close>, and
  \<^verbatim>\<open>toISOString\<close> throws. And the product \<^verbatim>\<open>parseFloat("1.005") * 1000\<close> is the double just
  below 1005, which \<^verbatim>\<open>Date\<close> truncates to 1004 milliseconds, where the decimal has 1005.
\<close>

theorem convertTimestampsToISO_claim_counterexample:
  "convertTimestampsToISO (Obj [(''ts'', Str ''10000000000000'')])
     = Inl (RangeError ''Invalid time value'')
   \<and> convertTimestampsToISO (Obj [(''ts'', Str ''1.005'')])
     = Inr (Obj [(''ts'', Str ''1970-01-01T00:00:01.004Z'')])
   \<and> rewriteTimestamps exactInstant (Obj [(''ts'', Str ''1.005'')])
     = Obj [(''ts'', Str ''1970-01-01T00:00:01.005Z'')]"
  by code_simp

text \<open>
  C6, amended. For every JSON value whose timestamp fields all denote a valid date (the
  double \<^verbatim>\<open>parseFloat(value) * 1000\<close> is at most 8.64e15), normalization returns the same
  tree, except that every object field whose key is \<^verbatim>\<open>ts\<close>, \<^verbatim>\<open>thread_ts\<close> or \<^verbatim>\<open>timestamp\<close>, or
  ends in \<^verbatim>\<open>_ts\<close>, and whose value is a string matching the numeric pattern, holds the ISO
  string of \<^verbatim>\<open>new Date(parseFloat(value) * 1000)\<close>, the product truncated to whole
  milliseconds. All other fields, among them timestamp-named fields with a non-numeric
  string, and all values that are neither objects nor arrays are returned unchanged.
\<close>

theorem convertTimestampsToISO_in_range:
  assumes "inDateRange T"
  shows "convertTimestampsToISO T = Inr (rewriteTimestamps dateInstant T)"
  using assms by (simp add: convert_characterised(1))

text \<open>
  An instance: a channel history with a numeric \<^verbatim>\<open>ts\<close>, a non-numeric \<^verbatim>\<open>edited_ts\<close>, a numeric
  string under another key and a \<^verbatim>\<open>null\<close>.
\<close>

theorem convertTimestampsToISO_in_range_witness:
  "inDateRange (Obj [(''ok'', Bool True), (''latest'', Null),
           (''messages'', Arr [Obj [(''ts'', Str ''1700000000.123456''), (''edited_ts'', Str ''not-a-number''),
                                    (''count'', Str ''12'')]])])
   \<and> convertTimestampsToISO
     (Obj [(''ok'', Bool True), (''latest'', Null),
           (''messages'', Arr [Obj [(''ts'', Str ''1700000000.123456''), (''edited_ts'', Str ''not-a-number''),
                                    (''count'', Str ''12'')]])])
   = Inr (Obj [(''ok'', Bool True), (''latest'', Null),
           (''messages'', Arr [Obj [(''ts'', Str ''2023-11-14T22:13:20.123Z''), (''edited_ts'', Str ''not-a-number''),
                                    (''count'', Str ''12'')]])])"
proof -
  have range: "inDateRange (Obj [(''ok'', Bool True), (''latest'', Null),
           (''messages'', Arr [Obj [(''ts'', Str ''1700000000.123456''), (''edited_ts'', Str ''not-a-number''),
                                    (''count'', Str ''12'')]])])"
    by code_simp
  have spec: "rewriteTimestamps dateInstant (Obj [(''ok'', Bool True), (''latest'', Null),
           (''messages'', Arr [Obj [(''ts'', Str ''1700000000.123456''), (''edited_ts'', Str ''not-a-number''),
                                    (''count'', Str ''12'')]])])
    = Obj [(''ok'', Bool True), (''latest'', Null),
           (''messages'', Arr [Obj [(''ts'', Str ''2023-11-14T22:13:20.123Z''), (''edited_ts'', Str ''not-a-number''),
                                    (''count'', Str ''12'')]])]"
    by code_simp
  from convertTimestampsToISO_in_range [OF range] range show ?thesis
    unfolding spec by simp
qed

section \<open>Properties of the identity resolver\<close>

text \<open>
  C3, as stated, has a failed lookup leave no trace in the cache, so that the next request
  for the identifier asks the platform again. The failure is caught inside the memoized
  function, which therefore fulfils with the degraded record, and that record is cached:
  after a lookup of \<^verbatim>\<open>U123\<close> that throws, a request made while the platform would answer
  with the user's names still returns the degraded record, and no second lookup is issued.
\<close>

theorem failed_lookup_retry_counterexample:
  "fst (memoizedGetUser
          (\<lambda>u. Inr \<lparr>ok = True, user = Some \<lparr>display_name = Some ''Ada'', real_name = None, name = Some ''ada''\<rparr>\<rparr>)
          ''U123''
          (snd (memoizedGetUser (\<lambda>u. Inl (TypeError ''fetch failed'')) ''U123'' emptyWorld)))
     = \<lparr>displayName = ''U123'', username = ''U123''\<rparr>
   \<and> lookups (snd (memoizedGetUser
          (\<lambda>u. Inr \<lparr>ok = True, user = Some \<lparr>display_name = Some ''Ada'', real_name = None, name = Some ''ada''\<rparr>\<rparr>)
          ''U123''
          (snd (memoizedGetUser (\<lambda>u. Inl (TypeError ''fetch failed'')) ''U123'' emptyWorld))))
     = [''U123'']
   \<and> fst (memoizedGetUser
          (\<lambda>u. Inr \<lparr>ok = True, user = Some \<lparr>display_name = Some ''Ada'', real_name = None, name = Some ''ada''\<rparr>\<rparr>)
          ''U123'' emptyWorld)
     = \<lparr>displayName = ''Ada'', username = ''ada''\<rparr>"
  by (simp add: memoizedGetUser_def getUser_def emptyWorld_def orElse_def Let_def)

text \<open>
  C3, amended. When the upstream lookup for an identifier fails (it throws, or the reply
  is not \<^verbatim>\<open>ok\<close> or has no user), the resolver does not raise but returns the degraded record
  with \<^verbatim>\<open>displayName\<close> and \<^verbatim>\<open>username\<close> both equal to the identifier, and that record is cached
  like any other result: a later request for the same identifier returns it from the
  cache and issues no lookup, whatever the platform would answer then.
\<close>

theorem failed_lookup_is_cached:
  assumes "cache w userId = None" and "lookupFailed (up userId)"
  shows "fst (memoizedGetUser up userId w) = \<lparr>displayName = userId, username = userId\<rparr>
    \<and> lookups (snd (memoizedGetUser up userId w)) = lookups w @ [userId]
    \<and> memoizedGetUser up' userId (snd (memoizedGetUser up userId w))
        = (\<lparr>displayName = userId, username = userId\<rparr>, snd (memoizedGetUser up userId w))"
  using assms
  by (auto simp: memoizedGetUser_def getUser_def lookupFailed_def Let_def split: sum.splits)

text \<open>An instance: a reply that is not \<^verbatim>\<open>ok\<close>, then a request while the platform is down.\<close>

theorem failed_lookup_is_cached_witness:
  "cache emptyWorld ''U123'' = None
   \<and> lookupFailed (Inr \<lparr>ok = False, user = None\<rparr>)
   \<and> fst (memoizedGetUser (\<lambda>u. Inr \<lparr>ok = False, user = None\<rparr>) ''U123'' emptyWorld)
       = \<lparr>displayName = ''U123'', username = ''U123''\<rparr>
   \<and> lookups (snd (memoizedGetUser (\<lambda>u. Inr \<lparr>ok = False, user = None\<rparr>) ''U123'' emptyWorld)) = [''U123'']
   \<and> lookups (snd (memoizedGetUser (\<lambda>u. Inl (TypeError ''fetch failed'')) ''U123''
        (snd (memoizedGetUser (\<lambda>u. Inr \<lparr>ok = False, user = None\<rparr>) ''U123'' emptyWorld)))) = [''U123'']"
proof -
  have miss: "cache emptyWorld ''U123'' = None"
    by (simp add: emptyWorld_def)
  have failed: "lookupFailed ((\<lambda>u. Inr \<lparr>ok = False, user = None\<rparr>) ''U123'')"
    by (simp add: lookupFailed_def)
  from failed_lookup_is_cached [OF miss failed, of "\<lambda>u. Inl (TypeError ''fetch failed'')"] miss failed
  show ?thesis
    by (simp add: emptyWorld_def Let_def)
qed

section \<open>Properties of the response enricher\<close>

lemma enrich_unfold:
  "enrichWithUserInfo up (Arr xs) w =
     (Arr (fst (enrichItems up xs w)), snd (enrichItems up xs w))"
  "enrichWithUserInfo up (Obj fs) w =
     (Obj (fst (enrichEntries up (fst (addUserInfo up fs w)) (snd (addUserInfo up fs w)))),
      snd (enrichEntries up (fst (addUserInfo up fs w)) (snd (addUserInfo up fs w))))"
  "enrichItems up (x # xs) w =
     (fst (enrichWithUserInfo up x w) # fst (enrichItems up xs (snd (enrichWithUserInfo up x w))),
      snd (enrichItems up xs (snd (enrichWithUserInfo up x w))))"
  "enrichEntries up ((key, v) # rest) w =
     ((key, if typeofObject v then fst (enrichWithUserInfo up v w) else v)
        # fst (enrichEntries up rest (if typeofObject v then snd (enrichWithUserInfo up v w) else w)),
      snd (enrichEntries up rest (if typeofObject v then snd (enrichWithUserInfo up v w) else w)))"
  by (simp_all add: case_prod_beta)

declare enrichWithUserInfo.simps(5,6) [simp del]
declare enrichItems.simps(2) [simp del]
declare enrichEntries.simps(2) [simp del]
declare enrich_unfold [simp]

lemma enrich_induct [case_names Null Bool Num Str Arr Obj Nil Cons NoEntry Entry]:
  assumes "\<And>up w. P up Null w" "\<And>up b w. P up (Bool b) w" "\<And>up x w. P up (Num x) w"
    and "\<And>up s w. P up (Str s) w"
    and "\<And>up xs w. Q up xs w \<Longrightarrow> P up (Arr xs) w"
    and "\<And>up fs w. R up (fst (addUserInfo up fs w)) (snd (addUserInfo up fs w)) \<Longrightarrow> P up (Obj fs) w"
    and "\<And>up w. Q up [] w"
    and "\<And>up x xs w. P up x w \<Longrightarrow> Q up xs (snd (enrichWithUserInfo up x w)) \<Longrightarrow> Q up (x # xs) w"
    and "\<And>up w. R up [] w"
    and "\<And>up key v rest w. (typeofObject v \<Longrightarrow> P up v w) \<Longrightarrow>
           R up rest (if typeofObject v then snd (enrichWithUserInfo up v w) else w) \<Longrightarrow>
           R up ((key, v) # rest) w"
  shows "P up v w" and "Q up xs w" and "R up fs w"
proof (induction up v w and up xs w and up fs w
    rule: enrichWithUserInfo_enrichItems_enrichEntries.induct)
  case (6 up fs w)
  show ?case
    by (rule assms(6)) (rule 6 [OF refl prod.collapse])
next
  case (8 up x xs w)
  show ?case
    by (rule assms(8) [OF "8"(1)]) (rule "8"(2) [OF refl prod.collapse])
next
  case (10 up key v rest w)
  have "R up rest (snd (if typeofObject v then enrichWithUserInfo up v w else (v, w)))"
    by (rule "10"(2) [OF refl prod.collapse])
  then have "R up rest (if typeofObject v then snd (enrichWithUserInfo up v w) else w)"
    by (simp split: if_splits)
  with "10"(1) show ?case
    by (intro assms(10))
qed (auto intro: assms)

lemma resolved_memoized: "resolved up (snd (memoizedGetUser up u w)) = resolved up w"
proof
  fix x
  show "resolved up (snd (memoizedGetUser up u w)) x = resolved up w x"
    by (cases "cache w u"; cases "cache w x")
       (auto simp: resolved_def memoizedGetUser_def Let_def)
qed

lemma resolved_addUserInfo: "resolved up (snd (addUserInfo up fs w)) = resolved up w"
  by (cases "needsUserInfo fs")
     (simp_all add: addUserInfo_def case_prod_beta resolved_memoized)

lemma resolved_enrich:
  "resolved up (snd (enrichWithUserInfo up v w)) = resolved up w"
  "resolved up (snd (enrichItems up xs w)) = resolved up w"
  "resolved up (snd (enrichEntries up fs w)) = resolved up w"
proof (induction up v w and up xs w and up fs w rule: enrich_induct)
  case (Obj up fs w)
  then show ?case by (simp add: resolved_addUserInfo)
next
  case (Entry up key v rest w)
  then show ?case by (cases "typeofObject v") simp_all
qed simp_all





lemma valueAt_atom:
  assumes "\<not> typeofObject v"
  shows "valueAt path v \<noteq> Some (Obj entries)"
proof (cases path)
  case Nil
  with assms show ?thesis by (cases v) simp_all
next
  case (Cons s rest)
  with assms show ?thesis by (cases v; cases s) simp_all
qed

lemma valueAt_Null: "valueAt path Null \<noteq> Some (Obj entries)"
proof (cases path)
  case Nil
  then show ?thesis by simp
next
  case (Cons s rest)
  then show ?thesis by (cases s) simp_all
qed

lemma addUserInfo_None:
  "needsUserInfo fs = None \<Longrightarrow> fst (addUserInfo up fs w) = fs"
  by (simp add: addUserInfo_def)

lemma addUserInfo_Some:
  "needsUserInfo fs = Some u \<Longrightarrow>
   fst (addUserInfo up fs w) =
     AList.update ''user_username'' (Str (username (resolved up w u)))
       (AList.update ''user_display_name'' (Str (displayName (resolved up w u))) fs)"
  by (simp add: addUserInfo_def resolved_def case_prod_beta)

lemma enrichEntries_keeps_atoms:
  "map_of fs k = Some v \<Longrightarrow> \<not> typeofObject v \<Longrightarrow>
   map_of (fst (enrichEntries up fs w)) k = Some v"
proof (induction fs arbitrary: w)
  case Nil
  then show ?case by simp
next
  case (Cons entry fs)
  obtain key x where entry: "entry = (key, x)" by (cases entry)
  show ?case
  proof (cases "k = key")
    case True
    with Cons.prems entry show ?thesis by simp
  next
    case False
    with Cons.prems entry have "map_of fs k = Some v" by simp
    from Cons.IH [OF this Cons.prems(2)] False entry show ?thesis by simp
  qed
qed

lemma length_enrichItems: "length (fst (enrichItems up xs w)) = length xs"
  by (induction xs arbitrary: w) simp_all

lemma names_added_all:
  "\<forall>path entries. valueAt path (fst (enrichWithUserInfo up v w)) = Some (Obj entries) \<longrightarrow>
     (\<exists>fs. valueAt path v = Some (Obj fs) \<and> survives path v
        \<and> namesAdded (resolved up w) fs entries)"
  "\<forall>i path entries. i < length xs
       \<and> valueAt path (fst (enrichItems up xs w) ! i) = Some (Obj entries) \<longrightarrow>
     (\<exists>fs. valueAt path (xs ! i) = Some (Obj fs) \<and> survives path (xs ! i)
        \<and> namesAdded (resolved up w) fs entries)"
  "\<forall>k v' path entries. map_of (fst (enrichEntries up fs w)) k = Some v'
       \<and> valueAt path v' = Some (Obj entries) \<longrightarrow>
     (\<exists>v fs0. map_of fs k = Some v \<and> valueAt path v = Some (Obj fs0) \<and> survives path v
        \<and> namesAdded (resolved up w) fs0 entries)"
proof (induction up v w and up xs w and up fs w rule: enrich_induct)
  case (Null up w)
  then show ?case by (simp add: valueAt_Null)
next
  case (Bool up b w)
  then show ?case by (simp add: valueAt_atom)
next
  case (Num up x w)
  then show ?case by (simp add: valueAt_atom)
next
  case (Str up s w)
  then show ?case by (simp add: valueAt_atom)
next
  case (Arr up xs w)
  show ?case
  proof (intro allI impI)
    fix path entries
    assume out: "valueAt path (fst (enrichWithUserInfo up (Arr xs) w)) = Some (Obj entries)"
    show "\<exists>fs. valueAt path (Arr xs) = Some (Obj fs) \<and> survives path (Arr xs)
        \<and> namesAdded (resolved up w) fs entries"
    proof (cases path)
      case Nil
      with out show ?thesis by simp
    next
      case (Cons s rest)
      show ?thesis
      proof (cases s)
        case (Key k)
        with Cons out show ?thesis by simp
      next
        case (Index i)
        with Cons out have i: "i < length xs"
          and sub: "valueAt rest (fst (enrichItems up xs w) ! i) = Some (Obj entries)"
          by (simp_all add: length_enrichItems split: if_splits)
        with Arr obtain fs where "valueAt rest (xs ! i) = Some (Obj fs)"
          and "survives rest (xs ! i)"
          and "namesAdded (resolved up w) fs entries"
          by blast
        with Cons Index i show ?thesis by simp
      qed
    qed
  qed
next
  case (Obj up fs w)
  let ?enriched = "fst (addUserInfo up fs w)"
  let ?w1 = "snd (addUserInfo up fs w)"
  let ?out = "fst (enrichEntries up ?enriched ?w1)"
  show ?case
  proof (intro allI impI)
    fix path entries
    assume out: "valueAt path (fst (enrichWithUserInfo up (Obj fs) w)) = Some (Obj entries)"
    show "\<exists>fs'. valueAt path (Obj fs) = Some (Obj fs') \<and> survives path (Obj fs)
        \<and> namesAdded (resolved up w) fs' entries"
    proof (cases path)
      case Nil
      with out have entries: "entries = ?out" by simp
      have "namesAdded (resolved up w) fs ?out"
      proof (cases "needsUserInfo fs")
        case None
        then show ?thesis by (simp add: namesAdded_def)
      next
        case (Some u)
        have "map_of ?enriched ''user_display_name'' = Some (Str (displayName (resolved up w u)))"
          and "map_of ?enriched ''user_username'' = Some (Str (username (resolved up w u)))"
          by (simp_all add: addUserInfo_Some [OF Some] update_conv')
        then have "map_of ?out ''user_display_name'' = Some (Str (displayName (resolved up w u)))"
          and "map_of ?out ''user_username'' = Some (Str (username (resolved up w u)))"
          by (simp_all add: enrichEntries_keeps_atoms)
        with Some show ?thesis by (simp add: namesAdded_def)
      qed
      with Nil entries show ?thesis by simp
    next
      case (Cons s rest)
      show ?thesis
      proof (cases s)
        case (Index i)
        with Cons out show ?thesis by simp
      next
        case (Key k)
        with Cons out obtain v' where v': "map_of ?out k = Some v'"
          and sub: "valueAt rest v' = Some (Obj entries)"
          by (auto split: option.splits)
        with Obj obtain v fs0 where v: "map_of ?enriched k = Some v"
          and at: "valueAt rest v = Some (Obj fs0)"
          and deeper: "survives rest v"
          and added: "namesAdded (resolved up ?w1) fs0 entries"
          by blast
        have "map_of fs k = Some v \<and> \<not> (k = ''user_username'' \<and> needsUserInfo fs \<noteq> None)"
        proof (cases "needsUserInfo fs")
          case None
          with v show ?thesis by (simp add: addUserInfo_None)
        next
          case (Some u)
          from at have "typeofObject v"
            using valueAt_atom [of v rest fs0] by blast
          with v show ?thesis
            by (auto simp: addUserInfo_Some [OF Some] update_conv' split: if_splits)
        qed
        with at deeper added Cons Key show ?thesis
          by (simp add: resolved_addUserInfo)
      qed
    qed
  qed
next
  case (Nil up w)
  then show ?case by simp
next
  case (Cons up x xs w)
  show ?case
  proof (intro allI impI)
    fix i path entries
    assume a: "i < length (x # xs)
      \<and> valueAt path (fst (enrichItems up (x # xs) w) ! i) = Some (Obj entries)"
    show "\<exists>fs. valueAt path ((x # xs) ! i) = Some (Obj fs) \<and> survives path ((x # xs) ! i)
        \<and> namesAdded (resolved up w) fs entries"
    proof (cases i)
      case 0
      with a Cons.IH(1) show ?thesis by simp
    next
      case (Suc j)
      with a have "j < length xs"
        and "valueAt path (fst (enrichItems up xs (snd (enrichWithUserInfo up x w))) ! j)
               = Some (Obj entries)"
        by simp_all
      with Cons.IH(2) obtain fs where "valueAt path (xs ! j) = Some (Obj fs)"
        and "survives path (xs ! j)"
        and "namesAdded (resolved up (snd (enrichWithUserInfo up x w))) fs entries"
        by blast
      with Suc show ?thesis by (simp add: resolved_enrich)
    qed
  qed
next
  case (NoEntry up w)
  then show ?case by simp
next
  case (Entry up key v rest w)
  let ?w1 = "if typeofObject v then snd (enrichWithUserInfo up v w) else w"
  have same: "resolved up ?w1 = resolved up w"
    by (simp add: resolved_enrich)
  show ?case
  proof (intro allI impI)
    fix k v' path entries
    assume a: "map_of (fst (enrichEntries up ((key, v) # rest) w)) k = Some v'
      \<and> valueAt path v' = Some (Obj entries)"
    show "\<exists>x fs0. map_of ((key, v) # rest) k = Some x \<and> valueAt path x = Some (Obj fs0)
        \<and> survives path x \<and> namesAdded (resolved up w) fs0 entries"
    proof (cases "k = key")
      case True
      show ?thesis
      proof (cases "typeofObject v")
        case False
        with a True have "valueAt path v = Some (Obj entries)" by simp
        with False show ?thesis using valueAt_atom [of v path entries] by blast
      next
        case obj: True
        with a True have "valueAt path (fst (enrichWithUserInfo up v w)) = Some (Obj entries)"
          by simp
        with Entry.IH(1) [OF obj] obtain fs0 where "valueAt path v = Some (Obj fs0)"
          and "survives path v"
          and "namesAdded (resolved up w) fs0 entries"
          by blast
        with True show ?thesis by simp
      qed
    next
      case False
      with a have "map_of (fst (enrichEntries up rest ?w1)) k = Some v'"
        and "valueAt path v' = Some (Obj entries)"
        by simp_all
      with Entry.IH(2) obtain x fs0 where "map_of rest k = Some x"
        and "valueAt path x = Some (Obj fs0)"
        and "survives path x"
        and "namesAdded (resolved up ?w1) fs0 entries"
        by blast
      with False same show ?thesis by simp
    qed
  qed
qed

lemma valueAt_truthy:
  assumes "valueAt path x = Some (Obj fs0)"
  shows "truthy x"
proof (cases "typeofObject x")
  case False
  with assms show ?thesis using valueAt_atom [of x path fs0] by blast
next
  case True
  with assms show ?thesis by (cases x) (simp_all add: valueAt_Null)
qed

lemma needsUserInfo_iff:
  "needsUserInfo fs = Some u \<longleftrightarrow>
     map_of fs ''user'' = Some (Str u) \<and> isUserId u \<and> \<not> truthyField fs ''user_display_name''"
  by (auto simp: needsUserInfo_def isUserId_def split: option.splits json.splits)

lemma positions_kept_all:
  "\<forall>path fs0. valueAt path v = Some (Obj fs0) \<and> survives path v \<longrightarrow>
     (\<exists>entries. valueAt path (fst (enrichWithUserInfo up v w)) = Some (Obj entries))"
  "\<forall>i path fs0. i < length xs \<and> valueAt path (xs ! i) = Some (Obj fs0)
       \<and> survives path (xs ! i) \<longrightarrow>
     (\<exists>entries. valueAt path (fst (enrichItems up xs w) ! i) = Some (Obj entries))"
  "\<forall>k x path fs0. map_of fs k = Some x \<and> valueAt path x = Some (Obj fs0)
       \<and> survives path x \<longrightarrow>
     (\<exists>x' entries. map_of (fst (enrichEntries up fs w)) k = Some x'
        \<and> valueAt path x' = Some (Obj entries))"
proof (induction up v w and up xs w and up fs w rule: enrich_induct)
  case (Null up w)
  then show ?case by (simp add: valueAt_Null)
next
  case (Bool up b w)
  then show ?case by (simp add: valueAt_atom)
next
  case (Num up x w)
  then show ?case by (simp add: valueAt_atom)
next
  case (Str up s w)
  then show ?case by (simp add: valueAt_atom)
next
  case (Arr up xs w)
  show ?case
  proof (intro allI impI)
    fix path fs0
    assume a: "valueAt path (Arr xs) = Some (Obj fs0) \<and> survives path (Arr xs)"
    show "\<exists>entries. valueAt path (fst (enrichWithUserInfo up (Arr xs) w)) = Some (Obj entries)"
    proof (cases path)
      case Nil
      with a show ?thesis by simp
    next
      case (Cons s rest)
      show ?thesis
      proof (cases s)
        case (Key k)
        with Cons a show ?thesis by simp
      next
        case (Index i)
        with Cons a have "i < length xs" and "valueAt rest (xs ! i) = Some (Obj fs0)"
          and "survives rest (xs ! i)"
          by (simp_all split: if_splits)
        with Arr obtain entries where
          "valueAt rest (fst (enrichItems up xs w) ! i) = Some (Obj entries)"
          by blast
        with Cons Index \<open>i < length xs\<close> show ?thesis
          by (simp add: length_enrichItems)
      qed
    qed
  qed
next
  case (Obj up fs w)
  let ?enriched = "fst (addUserInfo up fs w)"
  let ?w1 = "snd (addUserInfo up fs w)"
  show ?case
  proof (intro allI impI)
    fix path fs0
    assume a: "valueAt path (Obj fs) = Some (Obj fs0) \<and> survives path (Obj fs)"
    show "\<exists>entries. valueAt path (fst (enrichWithUserInfo up (Obj fs) w)) = Some (Obj entries)"
    proof (cases path)
      case Nil
      then show ?thesis by simp
    next
      case (Cons s rest)
      show ?thesis
      proof (cases s)
        case (Index i)
        with Cons a show ?thesis by simp
      next
        case (Key k)
        with Cons a obtain x where x: "map_of fs k = Some x"
          and at: "valueAt rest x = Some (Obj fs0)"
          and k: "\<not> (k = ''user_username'' \<and> needsUserInfo fs \<noteq> None)"
          and rest: "survives rest x"
          by (auto split: option.splits)
        have "map_of ?enriched k = Some x"
        proof (cases "needsUserInfo fs")
          case None
          with x show ?thesis by (simp add: addUserInfo_None)
        next
          case (Some u)
          from at have "truthy x" by (rule valueAt_truthy)
          with x Some have "k \<noteq> ''user_display_name''"
            by (auto simp: needsUserInfo_iff truthyField_def)
          with x k Some show ?thesis by (simp add: addUserInfo_Some [OF Some] update_conv')
        qed
        with Obj at rest obtain x' entries where
          "map_of (fst (enrichEntries up ?enriched ?w1)) k = Some x'"
          and "valueAt rest x' = Some (Obj entries)"
          by blast
        with Cons Key show ?thesis by simp
      qed
    qed
  qed
next
  case (Nil up w)
  then show ?case by simp
next
  case (Cons up x xs w)
  show ?case
  proof (intro allI impI)
    fix i path fs0
    assume a: "i < length (x # xs) \<and> valueAt path ((x # xs) ! i) = Some (Obj fs0)
       \<and> survives path ((x # xs) ! i)"
    show "\<exists>entries. valueAt path (fst (enrichItems up (x # xs) w) ! i) = Some (Obj entries)"
    proof (cases i)
      case 0
      with a Cons.IH(1) show ?thesis by simp
    next
      case (Suc j)
      with a Cons.IH(2) show ?thesis by simp
    qed
  qed
next
  case (NoEntry up w)
  then show ?case by simp
next
  case (Entry up key v rest w)
  show ?case
  proof (intro allI impI)
    fix k x path fs0
    assume a: "map_of ((key, v) # rest) k = Some x \<and> valueAt path x = Some (Obj fs0)
       \<and> survives path x"
    show "\<exists>x' entries. map_of (fst (enrichEntries up ((key, v) # rest) w)) k = Some x'
        \<and> valueAt path x' = Some (Obj entries)"
    proof (cases "k = key")
      case True
      with a have x: "x = v" by simp
      with a have "typeofObject v"
        using valueAt_atom [of v path fs0] by blast
      with Entry.IH(1) a x True show ?thesis by simp
    next
      case False
      with a have "map_of rest k = Some x" by simp
      with a Entry.IH(2) obtain x' entries where
        "map_of (fst (enrichEntries up rest
            (if typeofObject v then snd (enrichWithUserInfo up v w) else w))) k = Some x'"
        and "valueAt path x' = Some (Obj entries)"
        by blast
      with False show ?thesis by simp
    qed
  qed
qed

lemma entriesKeptIn_more_keys:
  "entriesKeptIn except keys fs gs \<Longrightarrow> entriesKeptIn except (k # keys) fs gs"
proof (induction fs arbitrary: gs)
  case Nil
  then show ?case by simp
next
  case (Cons entry fs)
  obtain key v where entry: "entry = (key, v)" by (cases entry)
  with Cons.prems obtain v' gs' where gs: "gs = (key, v') # gs'"
    and here: "key \<in> set keys \<or> keptIn except v v'"
    and tail: "entriesKeptIn except keys fs gs'"
    by (auto split: list.splits)
  from Cons.IH [OF tail] here gs entry show ?case by auto
qed

lemma entriesKeptIn_update:
  "entriesKeptIn except keys (AList.update k x fs) gs \<Longrightarrow> entriesKeptIn except (k # keys) fs gs"
proof (induction fs arbitrary: gs)
  case Nil
  then show ?case by simp
next
  case (Cons entry fs)
  obtain key v where entry: "entry = (key, v)" by (cases entry)
  show ?case
  proof (cases "key = k")
    case True
    with Cons.prems entry obtain v' gs' where gs: "gs = (k, v') # gs'"
      and tail: "entriesKeptIn except keys fs gs'"
      by (auto split: list.splits)
    from entriesKeptIn_more_keys [OF tail] gs entry True show ?thesis by simp
  next
    case False
    with Cons.prems entry obtain v' gs' where gs: "gs = (key, v') # gs'"
      and here: "key \<in> set keys \<or> keptIn except v v'"
      and tail: "entriesKeptIn except keys (AList.update k x fs) gs'"
      by (auto split: list.splits)
    from Cons.IH [OF tail] here gs entry show ?thesis by auto
  qed
qed

lemma entriesKeptIn_addUserInfo:
  assumes "entriesKeptIn overwrittenKeys [] (fst (addUserInfo up fs w)) gs"
  shows "entriesKeptIn overwrittenKeys (overwrittenKeys fs) fs gs"
proof (cases "needsUserInfo fs")
  case None
  with assms show ?thesis by (simp add: addUserInfo_None overwrittenKeys_def)
next
  case (Some u)
  from assms have "entriesKeptIn overwrittenKeys [''user_display_name'', ''user_username''] fs gs"
    unfolding addUserInfo_Some [OF Some]
    by (blast dest: entriesKeptIn_update)
  with Some show ?thesis by (simp add: overwrittenKeys_def)
qed

lemma kept_all:
  "keptIn overwrittenKeys v (fst (enrichWithUserInfo up v w))"
  "itemsKeptIn overwrittenKeys xs (fst (enrichItems up xs w))"
  "entriesKeptIn overwrittenKeys [] fs (fst (enrichEntries up fs w))"
proof (induction up v w and up xs w and up fs w rule: enrich_induct)
  case (Obj up fs w)
  then show ?case by (simp add: entriesKeptIn_addUserInfo)
next
  case (Entry up key v rest w)
  then show ?case by (cases v) simp_all
qed simp_all

text \<open>
  C4, as stated, has every object of the tree that meets the guard end up with the two
  names, at every depth, the check and the descent being independent. They are not: lines
  338 and 339 assign the names before the loop of lines 343 to 347 descends, so the loop
  finds the resolved handle where the \<^verbatim>\<open>user_username\<close> of the input was. An object that
  meets the guard and sits under the \<^verbatim>\<open>user_username\<close> of an object that meets the guard
  too is replaced by that handle: it is not enriched, and no lookup is made for it.
\<close>

theorem enrichWithUserInfo_discards_nested_counterexample:
  "valueAt [Key ''user_username'']
     (Obj [(''user'', Str ''U123''), (''user_username'', Obj [(''user'', Str ''U456'')])])
     = Some (Obj [(''user'', Str ''U456'')])
   \<and> map_of [(''user'', Str ''U456'')] ''user'' = Some (Str ''U456'')
   \<and> isUserId ''U456''
   \<and> \<not> truthyField [(''user'', Str ''U456'')] ''user_display_name''
   \<and> fst (enrichWithUserInfo workspace
        (Obj [(''user'', Str ''U123''), (''user_username'', Obj [(''user'', Str ''U456'')])])
        emptyWorld)
     = Obj [(''user'', Str ''U123''), (''user_username'', Str ''ada''),
            (''user_display_name'', Str ''Ada'')]
   \<and> valueAt [Key ''user_username'']
        (fst (enrichWithUserInfo workspace
           (Obj [(''user'', Str ''U123''), (''user_username'', Obj [(''user'', Str ''U456'')])])
           emptyWorld))
     = Some (Str ''ada'')
   \<and> lookups (snd (enrichWithUserInfo workspace
        (Obj [(''user'', Str ''U123''), (''user_username'', Obj [(''user'', Str ''U456'')])])
        emptyWorld))
     = [''U123'']"
  by code_simp

text \<open>
  C4, amended. For every JSON value, every object of the value that enrichment produces
  comes from the object at the same position of the input, and if that object has a field
  \<^verbatim>\<open>user\<close> whose value is a string matching the identifier pattern and carries no truthy
  \<^verbatim>\<open>user_display_name\<close>, the produced object has the fields \<^verbatim>\<open>user_display_name\<close> and
  \<^verbatim>\<open>user_username\<close> with the names that the identity resolver returns for that identifier.
  An object of the input is an object of the produced value at the same position exactly
  when its position survives, that is, passes through the \<^verbatim>\<open>user_username\<close> field of no
  object that meets the guard itself. So every object of the input that meets the guard, at
  any depth and whether or not the objects above it were enriched, ends up with the two
  names, except the objects inside the \<^verbatim>\<open>user_username\<close> value of an object that meets the
  guard.
\<close>

theorem enrichWithUserInfo_adds_names:
  "(valueAt path (fst (enrichWithUserInfo up T w)) = Some (Obj entries) \<longrightarrow>
      (\<exists>fs. valueAt path T = Some (Obj fs) \<and>
         (\<forall>u. map_of fs ''user'' = Some (Str u) \<and> isUserId u
               \<and> \<not> truthyField fs ''user_display_name'' \<longrightarrow>
            map_of entries ''user_display_name''
              = Some (Str (displayName (fst (memoizedGetUser up u w))))
            \<and> map_of entries ''user_username''
              = Some (Str (username (fst (memoizedGetUser up u w)))))))
   \<and> (valueAt path T = Some (Obj fs) \<longrightarrow>
        ((\<exists>entries. valueAt path (fst (enrichWithUserInfo up T w)) = Some (Obj entries))
           \<longleftrightarrow> survives path T))
   \<and> (valueAt path T = Some (Obj fs) \<and> survives path T
        \<and> map_of fs ''user'' = Some (Str u) \<and> isUserId u
        \<and> \<not> truthyField fs ''user_display_name'' \<longrightarrow>
      (\<exists>entries. valueAt path (fst (enrichWithUserInfo up T w)) = Some (Obj entries)
         \<and> map_of entries ''user_display_name''
              = Some (Str (displayName (fst (memoizedGetUser up u w))))
         \<and> map_of entries ''user_username''
              = Some (Str (username (fst (memoizedGetUser up u w))))))"
proof (intro conjI impI)
  assume "valueAt path (fst (enrichWithUserInfo up T w)) = Some (Obj entries)"
  with names_added_all(1) [of up T w] obtain fs where at: "valueAt path T = Some (Obj fs)"
    and added: "namesAdded (resolved up w) fs entries"
    by blast
  have "\<forall>u. map_of fs ''user'' = Some (Str u) \<and> isUserId u
               \<and> \<not> truthyField fs ''user_display_name'' \<longrightarrow>
            map_of entries ''user_display_name''
              = Some (Str (displayName (fst (memoizedGetUser up u w))))
            \<and> map_of entries ''user_username''
              = Some (Str (username (fst (memoizedGetUser up u w))))"
  proof (intro allI impI)
    fix u
    assume "map_of fs ''user'' = Some (Str u) \<and> isUserId u
               \<and> \<not> truthyField fs ''user_display_name''"
    then have "needsUserInfo fs = Some u"
      by (simp add: needsUserInfo_iff)
    with added show "map_of entries ''user_display_name''
              = Some (Str (displayName (fst (memoizedGetUser up u w))))
            \<and> map_of entries ''user_username''
              = Some (Str (username (fst (memoizedGetUser up u w))))"
      by (simp add: namesAdded_def resolved_def)
  qed
  with at show "\<exists>fs. valueAt path T = Some (Obj fs) \<and>
         (\<forall>u. map_of fs ''user'' = Some (Str u) \<and> isUserId u
               \<and> \<not> truthyField fs ''user_display_name'' \<longrightarrow>
            map_of entries ''user_display_name''
              = Some (Str (displayName (fst (memoizedGetUser up u w))))
            \<and> map_of entries ''user_username''
              = Some (Str (username (fst (memoizedGetUser up u w)))))"
    by blast
next
  assume at: "valueAt path T = Some (Obj fs)"
  show "(\<exists>entries. valueAt path (fst (enrichWithUserInfo up T w)) = Some (Obj entries))
           \<longleftrightarrow> survives path T"
  proof
    assume "\<exists>entries. valueAt path (fst (enrichWithUserInfo up T w)) = Some (Obj entries)"
    with names_added_all(1) [of up T w] show "survives path T"
      by blast
  next
    assume "survives path T"
    with at positions_kept_all(1) [of T up w]
    show "\<exists>entries. valueAt path (fst (enrichWithUserInfo up T w)) = Some (Obj entries)"
      by blast
  qed
next
  assume h: "valueAt path T = Some (Obj fs) \<and> survives path T
        \<and> map_of fs ''user'' = Some (Str u) \<and> isUserId u
        \<and> \<not> truthyField fs ''user_display_name''"
  with positions_kept_all(1) [of T up w] obtain entries
    where out: "valueAt path (fst (enrichWithUserInfo up T w)) = Some (Obj entries)"
    by blast
  with names_added_all(1) [of up T w] obtain fs' where "valueAt path T = Some (Obj fs')"
    and "namesAdded (resolved up w) fs' entries"
    by blast
  with h have added: "namesAdded (resolved up w) fs entries"
    by simp
  from h have "needsUserInfo fs = Some u"
    by (simp add: needsUserInfo_iff)
  with added have "map_of entries ''user_display_name''
              = Some (Str (displayName (fst (memoizedGetUser up u w))))
            \<and> map_of entries ''user_username''
              = Some (Str (username (fst (memoizedGetUser up u w))))"
    by (simp add: namesAdded_def resolved_def)
  with out show "\<exists>entries. valueAt path (fst (enrichWithUserInfo up T w)) = Some (Obj entries)
         \<and> map_of entries ''user_display_name''
              = Some (Str (displayName (fst (memoizedGetUser up u w))))
         \<and> map_of entries ''user_username''
              = Some (Str (username (fst (memoizedGetUser up u w))))"
    by blast
qed

text \<open>
  An instance: a reply nested in a message. The position of the reply survives; the reply,
  by a user whose lookup fails, gets the degraded names, and the message above it the
  names of its own user.
\<close>

theorem enrichWithUserInfo_adds_names_witness:
  "valueAt [Key ''messages'', Index 0, Key ''replies'', Index 0]
     (fst (enrichWithUserInfo workspace
        (Obj [(''messages'',
               Arr [Obj [(''user'', Str ''U123''), (''text'', Str ''hi''),
                         (''replies'', Arr [Obj [(''user'', Str ''U456'')]])]])])
        emptyWorld))
     = Some (Obj [(''user'', Str ''U456''), (''user_display_name'', Str ''U456''),
                  (''user_username'', Str ''U456'')])
   \<and> valueAt [Key ''messages'', Index 0, Key ''replies'', Index 0]
        (Obj [(''messages'',
               Arr [Obj [(''user'', Str ''U123''), (''text'', Str ''hi''),
                         (''replies'', Arr [Obj [(''user'', Str ''U456'')]])]])])
     = Some (Obj [(''user'', Str ''U456'')])
   \<and> survives [Key ''messages'', Index 0, Key ''replies'', Index 0]
        (Obj [(''messages'',
               Arr [Obj [(''user'', Str ''U123''), (''text'', Str ''hi''),
                         (''replies'', Arr [Obj [(''user'', Str ''U456'')]])]])])
   \<and> isUserId ''U456''
   \<and> \<not> truthyField [(''user'', Str ''U456'')] ''user_display_name''
   \<and> map_of [(''user'', Str ''U456''), (''user_display_name'', Str ''U456''),
              (''user_username'', Str ''U456'')] ''user_display_name''
       = Some (Str (displayName (fst (memoizedGetUser workspace ''U456'' emptyWorld))))
   \<and> map_of [(''user'', Str ''U456''), (''user_display_name'', Str ''U456''),
              (''user_username'', Str ''U456'')] ''user_username''
       = Some (Str (username (fst (memoizedGetUser workspace ''U456'' emptyWorld))))
   \<and> valueAt [Key ''messages'', Index 0]
     (fst (enrichWithUserInfo workspace
        (Obj [(''messages'',
               Arr [Obj [(''user'', Str ''U123''), (''text'', Str ''hi''),
                         (''replies'', Arr [Obj [(''user'', Str ''U456'')]])]])])
        emptyWorld))
     = Some (Obj [(''user'', Str ''U123''), (''text'', Str ''hi''),
                  (''replies'', Arr [Obj [(''user'', Str ''U456''), (''user_display_name'', Str ''U456''),
                                          (''user_username'', Str ''U456'')]]),
                  (''user_display_name'', Str ''Ada''), (''user_username'', Str ''ada'')])"
proof -
  let ?T = "Obj [(''messages'',
               Arr [Obj [(''user'', Str ''U123''), (''text'', Str ''hi''),
                         (''replies'', Arr [Obj [(''user'', Str ''U456'')]])]])]"
  let ?path = "[Key ''messages'', Index 0, Key ''replies'', Index 0]"
  let ?entries = "[(''user'', Str ''U456''), (''user_display_name'', Str ''U456''),
                  (''user_username'', Str ''U456'')]"
  have out: "valueAt ?path (fst (enrichWithUserInfo workspace ?T emptyWorld)) = Some (Obj ?entries)"
    by code_simp
  have parent: "valueAt [Key ''messages'', Index 0]
       (fst (enrichWithUserInfo workspace ?T emptyWorld))
     = Some (Obj [(''user'', Str ''U123''), (''text'', Str ''hi''),
                  (''replies'', Arr [Obj [(''user'', Str ''U456''), (''user_display_name'', Str ''U456''),
                                          (''user_username'', Str ''U456'')]]),
                  (''user_display_name'', Str ''Ada''), (''user_username'', Str ''ada'')])"
    by code_simp
  have before: "valueAt ?path ?T = Some (Obj [(''user'', Str ''U456'')])"
    by simp
  have id: "isUserId ''U456''"
    by (simp add: isUserId_def isUpper_def isDigit_def)
  have bare: "\<not> truthyField [(''user'', Str ''U456'')] ''user_display_name''"
    by (simp add: truthyField_def)
  have stays: "survives ?path ?T"
    by simp
  from enrichWithUserInfo_adds_names
         [of ?path workspace ?T emptyWorld ?entries "[(''user'', Str ''U456'')]" "''U456''"] out
  obtain fs where at: "valueAt ?path ?T = Some (Obj fs)"
    and added: "\<forall>u. map_of fs ''user'' = Some (Str u) \<and> isUserId u
               \<and> \<not> truthyField fs ''user_display_name'' \<longrightarrow>
            map_of ?entries ''user_display_name''
              = Some (Str (displayName (fst (memoizedGetUser workspace u emptyWorld))))
            \<and> map_of ?entries ''user_username''
              = Some (Str (username (fst (memoizedGetUser workspace u emptyWorld))))"
    by blast
  from at before have fs: "fs = [(''user'', Str ''U456'')]"
    by simp
  from added [rule_format, of "''U456''"] id bare
  have "map_of ?entries ''user_display_name''
              = Some (Str (displayName (fst (memoizedGetUser workspace ''U456'' emptyWorld))))"
    and "map_of ?entries ''user_username''
              = Some (Str (username (fst (memoizedGetUser workspace ''U456'' emptyWorld))))"
    unfolding fs by simp_all
  with out before stays id bare parent show ?thesis
    by (intro conjI)
qed

text \<open>
  C5, as stated, has every existing field keep its value. The guard looks at
  \<^verbatim>\<open>user_display_name\<close> alone and takes a falsy value for a missing one: an object with a
  \<^verbatim>\<open>user\<close> and a \<^verbatim>\<open>user_username\<close> of its own has the latter overwritten with the resolved
  handle, and an empty \<^verbatim>\<open>user_display_name\<close> is overwritten with the resolved name.
\<close>

theorem enrichWithUserInfo_overwrites_counterexample:
  "fst (enrichWithUserInfo workspace
          (Obj [(''user'', Str ''U123''), (''user_username'', Str ''bob'')]) emptyWorld)
     = Obj [(''user'', Str ''U123''), (''user_username'', Str ''ada''),
            (''user_display_name'', Str ''Ada'')]
   \<and> \<not> keptIn (\<lambda>fs. [])
         (Obj [(''user'', Str ''U123''), (''user_username'', Str ''bob'')])
         (fst (enrichWithUserInfo workspace
            (Obj [(''user'', Str ''U123''), (''user_username'', Str ''bob'')]) emptyWorld))
   \<and> fst (enrichWithUserInfo workspace
          (Obj [(''user'', Str ''U123''), (''user_display_name'', Str '''')]) emptyWorld)
     = Obj [(''user'', Str ''U123''), (''user_display_name'', Str ''Ada''),
            (''user_username'', Str ''ada'')]"
  by code_simp

text \<open>
  C5, amended. For every input tree, every key present in any object before enrichment is
  still present after enrichment, at the same place among the entries, and its value is
  unchanged (recursively, up to the additions inside nested objects), except that in an
  object for which the lookup is made (its \<^verbatim>\<open>user\<close> is an identifier and its
  \<^verbatim>\<open>user_display_name\<close> is absent or falsy) an existing \<^verbatim>\<open>user_display_name\<close> or
  \<^verbatim>\<open>user_username\<close> is overwritten with the resolved name. Enrichment adds keys after the
  existing ones, never removes or renames a field, and keeps the length and the order of
  every array.
\<close>

theorem enrichWithUserInfo_keeps_fields:
  "keptIn overwrittenKeys T (fst (enrichWithUserInfo up T w))"
  by (rule kept_all(1))

text \<open>
  An instance: a message with a handle of its own and a list of files, one of them by
  another user.
\<close>

theorem enrichWithUserInfo_keeps_fields_witness:
  "keptIn overwrittenKeys
     (Obj [(''user'', Str ''U123''), (''user_username'', Str ''bob''), (''text'', Str ''hi''),
           (''files'', Arr [Obj [(''user'', Str ''U456''), (''id'', Num 7)], Null])])
     (fst (enrichWithUserInfo workspace
        (Obj [(''user'', Str ''U123''), (''user_username'', Str ''bob''), (''text'', Str ''hi''),
              (''files'', Arr [Obj [(''user'', Str ''U456''), (''id'', Num 7)], Null])])
        emptyWorld))
   \<and> fst (enrichWithUserInfo workspace
        (Obj [(''user'', Str ''U123''), (''user_username'', Str ''bob''), (''text'', Str ''hi''),
              (''files'', Arr [Obj [(''user'', Str ''U456''), (''id'', Num 7)], Null])])
        emptyWorld)
     = Obj [(''user'', Str ''U123''), (''user_username'', Str ''ada''), (''text'', Str ''hi''),
            (''files'', Arr [Obj [(''user'', Str ''U456''), (''id'', Num 7),
                                  (''user_display_name'', Str ''U456''),
                                  (''user_username'', Str ''U456'')], Null]),
            (''user_display_name'', Str ''Ada'')]"
proof -
  have "fst (enrichWithUserInfo workspace
        (Obj [(''user'', Str ''U123''), (''user_username'', Str ''bob''), (''text'', Str ''hi''),
              (''files'', Arr [Obj [(''user'', Str ''U456''), (''id'', Num 7)], Null])])
        emptyWorld)
     = Obj [(''user'', Str ''U123''), (''user_username'', Str ''ada''), (''text'', Str ''hi''),
            (''files'', Arr [Obj [(''user'', Str ''U456''), (''id'', Num 7),
                                  (''user_display_name'', Str ''U456''),
                                  (''user_username'', Str ''U456'')], Null]),
            (''user_display_name'', Str ''Ada'')]"
    by code_simp
  with enrichWithUserInfo_keeps_fields [of
        "Obj [(''user'', Str ''U123''), (''user_username'', Str ''bob''), (''text'', Str ''hi''),
              (''files'', Arr [Obj [(''user'', Str ''U456''), (''id'', Num 7)], Null])]"
        workspace emptyWorld]
  show ?thesis by (intro conjI)
qed

section \<open>Properties of the tool router\<close>
























text \<open>
  C9. For every tool name, a request that carries no arguments object is answered with the
  error item "No arguments provided", and the state is left as it was: no gateway
  operation is invoked, also for a tool that requires no argument.
\<close>

theorem callTool_no_arguments:
  "callTool fetch up tool None w = ([Text (Obj [(''error'', Str ''No arguments provided'')])], w)"
  by (simp add: callTool_def toolResponse_def)

text \<open>
  An instance: \<^verbatim>\<open>slack_list_channels\<close> without arguments, and with an empty arguments object,
  which does reach the gateway.
\<close>

theorem callTool_no_arguments_witness:
  "callTool (\<lambda>c. Inr (Obj [(''ok'', Bool True), (''channels'', Arr [])]))
     (\<lambda>u. Inl (TypeError ''fetch failed'')) ''slack_list_channels'' None emptyWorld
   = ([Text (Obj [(''error'', Str ''No arguments provided'')])], emptyWorld)
   \<and> fst (callTool (\<lambda>c. Inr (Obj [(''ok'', Bool True), (''channels'', Arr [])]))
          (\<lambda>u. Inl (TypeError ''fetch failed'')) ''slack_list_channels'' (Some []) emptyWorld)
   = [Text (Obj [(''ok'', Bool True), (''channels'', Arr [])])]
   \<and> calls (snd (callTool (\<lambda>c. Inr (Obj [(''ok'', Bool True), (''channels'', Arr [])]))
          (\<lambda>u. Inl (TypeError ''fetch failed'')) ''slack_list_channels'' (Some []) emptyWorld))
   = [GetChannels None None]"
proof -
  have "fst (callTool (\<lambda>c. Inr (Obj [(''ok'', Bool True), (''channels'', Arr [])]))
          (\<lambda>u. Inl (TypeError ''fetch failed'')) ''slack_list_channels'' (Some []) emptyWorld)
   = [Text (Obj [(''ok'', Bool True), (''channels'', Arr [])])]
   \<and> calls (snd (callTool (\<lambda>c. Inr (Obj [(''ok'', Bool True), (''channels'', Arr [])]))
          (\<lambda>u. Inl (TypeError ''fetch failed'')) ''slack_list_channels'' (Some []) emptyWorld))
   = [GetChannels None None]"
    by (simp add: callTool_def toolResponse_def getChannels_def returnConverted_def fetchJson_def
        buildAndFetch_def conversionError_def appendError_def
        emptyWorld_def isTimestampKey_def endsWith_def)
  with callTool_no_arguments [of "\<lambda>c. Inr (Obj [(''ok'', Bool True), (''channels'', Arr [])])"
      "\<lambda>u. Inl (TypeError ''fetch failed'')" "''slack_list_channels''" emptyWorld]
  show ?thesis by simp
qed

text \<open>
  C10. \<^verbatim>\<open>slack_post_message\<close> with a \<^verbatim>\<open>text\<close> that is falsy, the empty string in particular,
  is rejected with the error that names the missing arguments, whatever \<^verbatim>\<open>channel_id\<close> is;
  and whatever the arguments are, the calls that this tool adds never post the empty
  string.
\<close>

theorem post_message_rejects_empty_text:
  "(\<not> truthyField args ''text'' \<longrightarrow>
      callTool fetch up ''slack_post_message'' (Some args) w
        = ([Text (Obj [(''error'', Str ''Missing required arguments: channel_id and text'')])], w))
   \<and> (map_of args ''text'' = Some (Str '''') \<longrightarrow>
      callTool fetch up ''slack_post_message'' (Some args) w
        = ([Text (Obj [(''error'', Str ''Missing required arguments: channel_id and text'')])], w))
   \<and> PostMessage channel (Some (Str ''''))
        \<notin> set (drop (length (calls w))
                 (calls (snd (callTool fetch up ''slack_post_message'' arguments w))))"
proof (intro conjI impI)
  assume "\<not> truthyField args ''text''"
  then show "callTool fetch up ''slack_post_message'' (Some args) w
        = ([Text (Obj [(''error'', Str ''Missing required arguments: channel_id and text'')])], w)"
    by (simp add: callTool_def toolResponse_def)
next
  assume "map_of args ''text'' = Some (Str '''')"
  then have "\<not> truthyField args ''text''"
    by (simp add: truthyField_def)
  then show "callTool fetch up ''slack_post_message'' (Some args) w
        = ([Text (Obj [(''error'', Str ''Missing required arguments: channel_id and text'')])], w)"
    by (simp add: callTool_def toolResponse_def)
next
  show "PostMessage channel (Some (Str ''''))
        \<notin> set (drop (length (calls w))
                 (calls (snd (callTool fetch up ''slack_post_message'' arguments w))))"
  proof (cases arguments)
    case None
    then show ?thesis by (simp add: callTool_def toolResponse_def)
  next
    case (Some args)
    show ?thesis
    proof (cases "truthyField args ''channel_id'' \<and> truthyField args ''text''")
      case False
      with Some show ?thesis by (auto simp: callTool_def toolResponse_def)
    next
      case True
      then have "map_of args ''text'' \<noteq> Some (Str '''')"
        by (auto simp: truthyField_def)
      with True Some show ?thesis
        by (auto simp: callTool_def toolResponse_def postMessage_def returnConverted_def
            fetchJson_def split: sum.splits prod.splits)
    qed
  qed
qed

text \<open>An instance: an empty text is rejected, and the same request with a text is sent.\<close>

theorem post_message_rejects_empty_text_witness:
  "map_of [(''channel_id'', Str ''C024BE91L''), (''text'', Str '''')] ''text'' = Some (Str '''')
   \<and> fst (callTool (\<lambda>c. Inr (Obj [(''ok'', Bool True)])) (\<lambda>u. Inl (TypeError ''fetch failed''))
        ''slack_post_message'' (Some [(''channel_id'', Str ''C024BE91L''), (''text'', Str '''')]) emptyWorld)
     = [Text (Obj [(''error'', Str ''Missing required arguments: channel_id and text'')])]
   \<and> calls (snd (callTool (\<lambda>c. Inr (Obj [(''ok'', Bool True)])) (\<lambda>u. Inl (TypeError ''fetch failed''))
        ''slack_post_message'' (Some [(''channel_id'', Str ''C024BE91L''), (''text'', Str '''')]) emptyWorld))
     = []
   \<and> calls (snd (callTool (\<lambda>c. Inr (Obj [(''ok'', Bool True)])) (\<lambda>u. Inl (TypeError ''fetch failed''))
        ''slack_post_message'' (Some [(''channel_id'', Str ''C024BE91L''), (''text'', Str ''hi'')]) emptyWorld))
     = [PostMessage (Some (Str ''C024BE91L'')) (Some (Str ''hi''))]"
proof -
  have present: "map_of [(''channel_id'', Str ''C024BE91L''), (''text'', Str '''')] ''text''
      = Some (Str '''')"
    by simp
  have posted: "calls (snd (callTool (\<lambda>c. Inr (Obj [(''ok'', Bool True)])) (\<lambda>u. Inl (TypeError ''fetch failed''))
        ''slack_post_message'' (Some [(''channel_id'', Str ''C024BE91L''), (''text'', Str ''hi'')]) emptyWorld))
     = [PostMessage (Some (Str ''C024BE91L'')) (Some (Str ''hi''))]"
    by (simp add: callTool_def toolResponse_def postMessage_def returnConverted_def
        fetchJson_def truthyField_def emptyWorld_def isTimestampKey_def endsWith_def)
  from post_message_rejects_empty_text
         [of "[(''channel_id'', Str ''C024BE91L''), (''text'', Str '''')]"
             "\<lambda>c. Inr (Obj [(''ok'', Bool True)])" "\<lambda>u. Inl (TypeError ''fetch failed'')" emptyWorld]
       present
  have "callTool (\<lambda>c. Inr (Obj [(''ok'', Bool True)])) (\<lambda>u. Inl (TypeError ''fetch failed''))
        ''slack_post_message'' (Some [(''channel_id'', Str ''C024BE91L''), (''text'', Str '''')]) emptyWorld
        = ([Text (Obj [(''error'', Str ''Missing required arguments: channel_id and text'')])], emptyWorld)"
    by blast
  with present posted show ?thesis
    by (simp add: emptyWorld_def)
qed

end
